theory Spec2Isabelle
  imports Complex_Main
begin

section \<open>Status conditions of a ResourceOptimizer\<close>

text \<open>
  Wall-clock time is a natural number of clock units. The clock is a sequence of readings:
  the \<open>k\<close>-th call of \<open>metav1.Now()\<close> returns \<open>clk k\<close>, and every function that reads the
  clock takes the index of the next reading and returns the index after its last one.
\<close>

type_synonym time = nat
type_synonym clock = "nat \<Rightarrow> time"

text \<open>
  Formatted text is kept as the format and its arguments: \<open>Sprintf f args\<close> stands for
  \<open>fmt.Sprintf(f, args...)\<close>, \<open>IntArg\<close> for an integer printed by \<open>%d\<close>,
  \<open>FloatArg\<close> for a float printed by \<open>%.2f\<close> and \<open>QuantityString\<close> for
  \<open>Quantity.String()\<close>.
\<close>

datatype ftext =
  Lit string | Sprintf string "ftext list" | IntArg int | FloatArg real | QuantityString real

datatype ConditionStatus = ConditionTrue | ConditionFalse | ConditionUnknown

record Condition =
  Type :: string
  Status :: ConditionStatus
  Reason :: string
  Message :: ftext
  LastTransitionTime :: time

text \<open>
  The loop of \<open>addCondition\<close> over \<open>status.Conditions\<close>: at the first condition of type
  \<open>condType\<close> it writes the four fields and returns (\<open>Some\<close> of the updated list and the next
  clock index); \<open>None\<close> when no condition has that type. \<open>now\<close> is the reading taken before
  the loop; the assignment of line 333 reads the clock again.
\<close>

fun addCondition_loop ::
  "clock \<Rightarrow> nat \<Rightarrow> time \<Rightarrow> string \<Rightarrow> ConditionStatus \<Rightarrow> string \<Rightarrow> ftext \<Rightarrow>
   Condition list \<Rightarrow> (Condition list \<times> nat) option" where
  "addCondition_loop clk k now condType statusType reason message [] = None"
| "addCondition_loop clk k now condType statusType reason message (c # cs) =
     (if Type c = condType then
        let c1 = (if Status c \<noteq> statusType then c\<lparr>LastTransitionTime := now\<rparr> else c);
            c2 = c1\<lparr>Status := statusType\<rparr>;
            c3 = c2\<lparr>Reason := reason\<rparr>;
            c4 = c3\<lparr>Message := message\<rparr>;
            c5 = c4\<lparr>LastTransitionTime := clk k\<rparr>
        in Some (c5 # cs, Suc k)
      else
        (case addCondition_loop clk k now condType statusType reason message cs of
           None \<Rightarrow> None
         | Some (cs', k') \<Rightarrow> Some (c # cs', k')))"

definition addCondition ::
  "clock \<Rightarrow> nat \<Rightarrow> Condition list \<Rightarrow> string \<Rightarrow> ConditionStatus \<Rightarrow> string \<Rightarrow> ftext \<Rightarrow>
   Condition list \<times> nat" where
  "addCondition clk k conds condType statusType reason message =
     (let now = clk k in
      case addCondition_loop clk (Suc k) now condType statusType reason message conds of
        Some r \<Rightarrow> r
      | None \<Rightarrow>
          (conds @ [\<lparr>Type = condType, Status = statusType, Reason = reason,
                     Message = message, LastTransitionTime = now\<rparr>], Suc k))"

text \<open>The stored transition time of the condition of a given type, if there is one.\<close>

definition transitionTime :: "Condition list \<Rightarrow> string \<Rightarrow> time option" where
  "transitionTime conds condType =
     map_option LastTransitionTime (find (\<lambda>c. Type c = condType) conds)"

section \<open>Metrics collector\<close>

text \<open>
  A \<open>resource.Quantity\<close> is an exact decimal number, here a real number in base units
  (cores, bytes); \<open>Quantity.Add\<close> is exact addition and the zero value is 0. The accessors
  \<open>MilliValue\<close> and \<open>Value\<close> return an \<open>int64\<close>: the value times 1000, and the value,
  rounded away from zero to an integer (\<open>roundUp\<close>), of which the 64 low bits are kept
  when it does not fit (\<open>int64\<close>, the wrap-around of 64-bit signed arithmetic): the
  milli-value of 10000000000000000 cores is -8446744073709551616.
\<close>

type_synonym quantity = real

definition int64 :: "int \<Rightarrow> int" where
  "int64 x = (x + 2 ^ 63) mod 2 ^ 64 - 2 ^ 63"

definition roundUp :: "real \<Rightarrow> int" where
  "roundUp x = (if 0 \<le> x then \<lceil>x\<rceil> else \<lfloor>x\<rfloor>)"

definition MilliValue :: "quantity \<Rightarrow> int" where
  "MilliValue q = int64 (roundUp (q * 1000))"

definition Value :: "quantity \<Rightarrow> int" where
  "Value q = int64 (roundUp q)"

definition NewMilliQuantity :: "int \<Rightarrow> quantity" where
  "NewMilliQuantity m = of_int m / 1000"

definition NewQuantity :: "int \<Rightarrow> quantity" where
  "NewQuantity v = of_int v"

text \<open>
  Errors: one raised by the cluster API (with what \<open>IsNotFound\<close> answers for it and its
  text), one made by \<open>fmt.Errorf\<close> from a plain text, and one made by \<open>fmt.Errorf\<close> with
  \<open>%w\<close>, which wraps the error it is given behind a prefix.
\<close>

datatype error = ApiError bool string | Errorf string | Wrapf string error

fun Error :: "error \<Rightarrow> string" where
  "Error (ApiError nf s) = s"
| "Error (Errorf s) = s"
| "Error (Wrapf p e) = p @ Error e"

fun Unwrap :: "error \<Rightarrow> error option" where
  "Unwrap (Wrapf p e) = Some e"
| "Unwrap e = None"

fun IsNotFound :: "error \<Rightarrow> bool" where
  "IsNotFound (ApiError nf s) = nf"
| "IsNotFound (Errorf s) = False"
| "IsNotFound (Wrapf p e) = IsNotFound e"

record ContainerMetrics =
  containerName :: string
  Usage :: "string \<rightharpoonup> quantity"

record PodMetrics =
  podName :: string
  podTimestamp :: time
  Containers :: "ContainerMetrics list"

record Deployment =
  Name :: string
  Namespace :: string
  Selector :: string

record UsageData =
  CPUUsage :: quantity
  MemoryUsage :: quantity
  Timestamp :: time

record WorkloadMetrics =
  deployment :: Deployment
  usage :: "UsageData list"

text \<open>Reading a Go map at a missing key gives the zero value.\<close>

definition usageOf :: "ContainerMetrics \<Rightarrow> string \<Rightarrow> quantity" where
  "usageOf c r = (case Usage c r of None \<Rightarrow> 0 | Some q \<Rightarrow> q)"

text \<open>
  The usage store: the answer to the \<open>n\<close>-th \<open>List\<close> query for a namespace and a label
  selector. The collector takes the number of queries made so far and returns it updated.
\<close>

type_synonym usage_store = "nat \<Rightarrow> string \<Rightarrow> string \<Rightarrow> error + PodMetrics list"

text \<open>The inner loop: the containers of one pod are added to the two totals.\<close>

fun addContainers :: "quantity \<times> quantity \<Rightarrow> ContainerMetrics list \<Rightarrow> quantity \<times> quantity" where
  "addContainers (totalCPU, totalMemory) [] = (totalCPU, totalMemory)"
| "addContainers (totalCPU, totalMemory) (c # cs) =
     addContainers (totalCPU + usageOf c ''cpu'', totalMemory + usageOf c ''memory'') cs"

text \<open>
  The outer loop. \<open>totalCPU\<close> and \<open>totalMemory\<close> are declared before it and are not reset
  between pods; \<open>usageData\<close> grows by one sample per pod.
\<close>

fun collectPods ::
  "quantity \<times> quantity \<Rightarrow> UsageData list \<Rightarrow> PodMetrics list \<Rightarrow> UsageData list" where
  "collectPods totals usageData [] = usageData"
| "collectPods totals usageData (podMetric # rest) =
     (let totals' = addContainers totals (Containers podMetric) in
      collectPods totals'
        (usageData @ [\<lparr>CPUUsage = fst totals', MemoryUsage = snd totals',
                       Timestamp = podTimestamp podMetric\<rparr>])
        rest)"

definition CollectWorkloadMetrics ::
  "usage_store \<Rightarrow> nat \<Rightarrow> Deployment \<Rightarrow> (error + WorkloadMetrics) \<times> nat" where
  "CollectWorkloadMetrics store n d =
     (case store n (Namespace d) (Selector d) of
        Inl err \<Rightarrow> (Inl (Wrapf ''failed to get pod metrics: '' err), Suc n)
      | Inr items \<Rightarrow> (Inr \<lparr>deployment = d, usage = collectPods (0, 0) [] items\<rparr>, Suc n))"

text \<open>What the containers of one pod snapshot use, taken alone.\<close>

definition podCPU :: "PodMetrics \<Rightarrow> quantity" where
  "podCPU p = (\<Sum>c\<leftarrow>Containers p. usageOf c ''cpu'')"

definition podMemory :: "PodMetrics \<Rightarrow> quantity" where
  "podMemory p = (\<Sum>c\<leftarrow>Containers p. usageOf c ''memory'')"

section \<open>Machine arithmetic\<close>

text \<open>
  64-bit signed addition wraps around (\<open>int64\<close> above); \<open>quo\<close> is Go's integer division,
  which truncates towards zero.
\<close>

definition quo :: "int \<Rightarrow> int \<Rightarrow> int" where
  "quo a b = sgn a * sgn b * (\<bar>a\<bar> div \<bar>b\<bar>)"

text \<open>
  A \<open>float64\<close> is the real number it denotes. Every arithmetic operation on floats gives
  the exact result rounded to the nearest number with a 53-bit significand, ties to the even
  significand: \<open>rne\<close> rounds a scaled significand to an integer, \<open>ilog2\<close> is the exponent
  of the leading bit (\<open>2 powi ilog2 x \<le> x < 2 powi (ilog2 x + 1)\<close>) and \<open>fl\<close> the
  rounding. Exponents are not bounded: no value of the analyzer leaves the normal range of
  binary64 (magnitudes between \<open>2 powi -1022\<close> and \<open>2 powi 1024\<close>) on any input whose integers
  fit 64 bits.
\<close>

definition rne :: "real \<Rightarrow> int" where
  "rne y = (let f = \<lfloor>y\<rfloor>; d = y - of_int f in
            if d < 1/2 then f else if 1/2 < d then f + 1 else if even f then f else f + 1)"

function lb_up :: "real \<Rightarrow> nat" where
  "lb_up x = (if x < 2 then 0 else Suc (lb_up (x / 2)))"
  by pat_completeness auto
termination
proof (relation "measure (\<lambda>x. nat \<lfloor>x\<rfloor>)")
  show "wf (measure (\<lambda>x::real. nat \<lfloor>x\<rfloor>))" by simp
next
  fix x :: real assume "\<not> x < 2"
  then have "2 \<le> x" by simp
  then have f2: "2 \<le> \<lfloor>x\<rfloor>" by simp
  have "x - 1 < of_int \<lfloor>x\<rfloor>" by linarith
  moreover have "(2::real) \<le> of_int \<lfloor>x\<rfloor>" using f2 by linarith
  ultimately have "x / 2 < of_int \<lfloor>x\<rfloor>" by linarith
  then have "\<lfloor>x / 2\<rfloor> < \<lfloor>x\<rfloor>" by (simp only: floor_less_iff)
  moreover have "0 < \<lfloor>x\<rfloor>" using f2 by simp
  ultimately show "(x / 2, x) \<in> measure (\<lambda>x. nat \<lfloor>x\<rfloor>)" by simp
qed

function lb_dn :: "real \<Rightarrow> nat" where
  "lb_dn x = (if x \<le> 0 \<or> 1 \<le> x then 0 else Suc (lb_dn (2 * x)))"
  by pat_completeness auto
termination
proof (relation "measure (\<lambda>x. nat \<lfloor>1 / x\<rfloor>)")
  show "wf (measure (\<lambda>x::real. nat \<lfloor>1 / x\<rfloor>))" by simp
next
  fix x :: real assume "\<not> (x \<le> 0 \<or> 1 \<le> x)"
  then have x: "0 < x" "x < 1" by simp_all
  define y where "y = 1 / x"
  have "1 < y" using x by (simp add: y_def)
  then have f1: "1 \<le> \<lfloor>y\<rfloor>" by simp
  have "y - 1 < of_int \<lfloor>y\<rfloor>" by linarith
  moreover have "(1::real) \<le> of_int \<lfloor>y\<rfloor>" using f1 by linarith
  ultimately have "y / 2 < of_int \<lfloor>y\<rfloor>" by linarith
  then have lt: "\<lfloor>y / 2\<rfloor> < \<lfloor>y\<rfloor>" by (simp only: floor_less_iff)
  have eq: "1 / (2 * x) = y / 2" by (simp add: y_def)
  have step: "\<lfloor>1 / (2 * x)\<rfloor> < \<lfloor>1 / x\<rfloor>" using lt unfolding eq y_def .
  show "(2 * x, x) \<in> measure (\<lambda>x. nat \<lfloor>1 / x\<rfloor>)"
    unfolding in_measure zless_nat_conj
  proof
    show "0 < \<lfloor>1 / x\<rfloor>" using f1 unfolding y_def by linarith
    show "\<lfloor>1 / (2 * x)\<rfloor> < \<lfloor>1 / x\<rfloor>" by (fact step)
  qed
qed

declare lb_up.simps [simp del] lb_dn.simps [simp del]

definition ilog2 :: "real \<Rightarrow> int" where
  "ilog2 x = (if 1 \<le> x then int (lb_up x) else - int (lb_dn x))"

definition round_at :: "int \<Rightarrow> real \<Rightarrow> real" where
  "round_at e x = sgn x * (of_int (rne (\<bar>x\<bar> / 2 powi e)) * 2 powi e)"

definition fl :: "real \<Rightarrow> real" where
  "fl x = round_at (ilog2 \<bar>x\<bar> - 52) x"

text \<open>
  Conversion of a float to an integer type truncates towards zero. When the truncated value
  does not fit, Go leaves the result to the implementation; \<open>toInt64\<close> and \<open>toInt32\<close> give
  the smallest integer of the type, which is what the amd64 conversion instruction returns.
  An integer converted to \<open>float64\<close> is rounded like any other result.
\<close>

definition trunc :: "real \<Rightarrow> int" where
  "trunc x = (if 0 \<le> x then \<lfloor>x\<rfloor> else \<lceil>x\<rceil>)"

definition toInt64 :: "real \<Rightarrow> int" where
  "toInt64 x = (let t = trunc x in if - (2 ^ 63) \<le> t \<and> t < 2 ^ 63 then t else - (2 ^ 63))"

definition toInt32 :: "real \<Rightarrow> int" where
  "toInt32 x = (let t = trunc x in if - (2 ^ 31) \<le> t \<and> t < 2 ^ 31 then t else - (2 ^ 31))"

definition float64 :: "int \<Rightarrow> real" where
  "float64 i = fl (of_int i)"

text \<open>
  Float division. A zero divisor gives an infinity or a NaN (\<open>None\<close>), whose conversion
  to \<open>int64\<close> is again the smallest integer on amd64.
\<close>

definition fdiv :: "real \<Rightarrow> real \<Rightarrow> real option" where
  "fdiv x y = (if y = 0 then None else Some (fl (x / y)))"

definition toInt64_opt :: "real option \<Rightarrow> int" where
  "toInt64_opt r = (case r of None \<Rightarrow> - (2 ^ 63) | Some x \<Rightarrow> toInt64 x)"

section \<open>Recommendation analyzer\<close>

text \<open>
  A call either returns or panics. The policy fields \<open>Min\<close> and \<open>Max\<close> are named
  \<open>Min_str\<close> and \<open>Max_str\<close> here.
\<close>

datatype 'a outcome = Panic string | Return 'a

record CPUPolicy =
  Min_str :: string
  Max_str :: string
  TargetUtilization :: int

record MemoryPolicy =
  BufferPercent :: int

record Policy =
  Cpu :: CPUPolicy
  Memory :: MemoryPolicy

text \<open>
  \<open>resource.MustParse\<close> on the two forms that the schema of \<open>CPUPolicy\<close> admits for
  \<open>Min\<close> and \<open>Max\<close> (the pattern \<open>^([0-9]+m|[0-9]+)$\<close>): a decimal number of cores, or
  of thousandths of a core with the suffix \<open>m\<close>. It panics on a string it cannot parse;
  strings in the other syntaxes of the library do not pass the schema and count as
  unparseable here.
\<close>

definition digitVal :: "char \<Rightarrow> nat option" where
  "digitVal c = map_of
     [(CHR ''0'', 0), (CHR ''1'', 1), (CHR ''2'', 2), (CHR ''3'', 3), (CHR ''4'', 4),
      (CHR ''5'', 5), (CHR ''6'', 6), (CHR ''7'', 7), (CHR ''8'', 8), (CHR ''9'', 9)] c"

fun digits :: "nat \<Rightarrow> string \<Rightarrow> nat option" where
  "digits acc [] = Some acc"
| "digits acc (c # cs) =
     (case digitVal c of None \<Rightarrow> None | Some d \<Rightarrow> digits (10 * acc + d) cs)"

definition MustParse :: "string \<Rightarrow> quantity outcome" where
  "MustParse s =
     (if s = [] then Panic ''cannot parse quantity''
      else if last s = CHR ''m'' \<and> butlast s \<noteq> [] then
        (case digits 0 (butlast s) of
           Some n \<Rightarrow> Return (of_nat n / 1000)
         | None \<Rightarrow> Panic ''cannot parse quantity'')
      else
        (case digits 0 s of
           Some n \<Rightarrow> Return (of_nat n)
         | None \<Rightarrow> Panic ''cannot parse quantity''))"

record Recommendation =
  CPURequest :: quantity
  CPULimit :: quantity
  MemoryRequest :: quantity
  MemoryLimit :: quantity
  RecReason :: ftext
  Confidence :: real

text \<open>
  \<open>cpuRecommendation\<close> and \<open>memoryRecommendation\<close> have the same two fields and share
  one record.
\<close>

record requestLimit =
  Request :: quantity
  Limit :: quantity

type_synonym cpuRecommendation = requestLimit
type_synonym memoryRecommendation = requestLimit

text \<open>The first loop of \<open>calculateCPURecommendation\<close>: peak and total (\<open>tot\<close>), both from 0.\<close>

fun cpuLoop :: "int \<times> int \<Rightarrow> UsageData list \<Rightarrow> int \<times> int" where
  "cpuLoop (peak, tot) [] = (peak, tot)"
| "cpuLoop (peak, tot) (u # us) =
     (let cpu = MilliValue (CPUUsage u) in
      cpuLoop (if cpu > peak then cpu else peak, int64 (tot + cpu)) us)"

text \<open>
  Integer division by \<open>len(metrics.Usage)\<close> panics when the series is empty;
  \<open>GenerateRecommendation\<close> never calls with one.
\<close>

definition calculateCPURecommendation ::
  "WorkloadMetrics \<Rightarrow> CPUPolicy \<Rightarrow> (cpuRecommendation \<times> ftext) outcome" where
  "calculateCPURecommendation metrics policy =
     (case cpuLoop (0, 0) (usage metrics) of (peak, tot) \<Rightarrow>
      if length (usage metrics) = 0 then Panic ''integer divide by zero''
      else
        let avg = quo tot (int (length (usage metrics)));
            targetCPU = toInt64_opt
              (fdiv (float64 avg) (fl (float64 (TargetUtilization policy) / 100)))
        in (case MustParse (Min_str policy) of
             Panic p \<Rightarrow> Panic p
           | Return minCPU \<Rightarrow>
          (case MustParse (Max_str policy) of
             Panic p \<Rightarrow> Panic p
           | Return maxCPU \<Rightarrow>
          (let targetCPU1 = (if targetCPU < MilliValue minCPU then MilliValue minCPU
                             else targetCPU);
               targetCPU2 = (if targetCPU1 > MilliValue maxCPU then MilliValue maxCPU
                             else targetCPU1);
               request = NewMilliQuantity targetCPU2;
               limitValue = toInt64 (max (fl (float64 targetCPU2 * (3/2)))
                                         (fl (float64 peak * fl (11/10))));
               limit = NewMilliQuantity limitValue;
               reason = Sprintf ''avg=%dm, peak=%dm, target=%dm''
                          [IntArg avg, IntArg peak, IntArg targetCPU2]
           in Return (\<lparr>Request = request, Limit = limit\<rparr>, reason)))))"

fun memLoop :: "int \<times> int \<Rightarrow> UsageData list \<Rightarrow> int \<times> int" where
  "memLoop (peak, tot) [] = (peak, tot)"
| "memLoop (peak, tot) (u # us) =
     (let mem = Value (MemoryUsage u) in
      memLoop (if mem > peak then mem else peak, int64 (tot + mem)) us)"

definition calculateMemoryRecommendation ::
  "WorkloadMetrics \<Rightarrow> MemoryPolicy \<Rightarrow> (memoryRecommendation \<times> ftext) outcome" where
  "calculateMemoryRecommendation metrics policy =
     (case memLoop (0, 0) (usage metrics) of (peak, tot) \<Rightarrow>
      if length (usage metrics) = 0 then Panic ''integer divide by zero''
      else
        let avg = quo tot (int (length (usage metrics)));
            bufferMultiplier = fl (1 + fl (float64 (BufferPercent policy) / 100));
            targetMemory = toInt64 (fl (float64 peak * bufferMultiplier));
            request = NewQuantity targetMemory;
            limit = NewQuantity (toInt64 (fl (float64 targetMemory * fl (12/10))));
            reason = Sprintf ''avg=%s, peak=%s, buffer=%d%%''
                       [QuantityString (NewQuantity avg), QuantityString (NewQuantity peak),
                        IntArg (BufferPercent policy)]
        in Return (\<lparr>Request = request, Limit = limit\<rparr>, reason))"

text \<open>
  \<open>calculateVariance\<close>: a running float sum, the mean, the running sum of squared
  deviations, and the quotient. \<open>math.Pow(d, 2)\<close> is the rounded square of \<open>d\<close>.
\<close>

fun fsum :: "real \<Rightarrow> real list \<Rightarrow> real" where
  "fsum s [] = s"
| "fsum s (v # vs) = fsum (fl (s + v)) vs"

definition Pow2 :: "real \<Rightarrow> real" where
  "Pow2 d = fl (d * d)"

fun fsumsq :: "real \<Rightarrow> real \<Rightarrow> real list \<Rightarrow> real" where
  "fsumsq mean variance [] = variance"
| "fsumsq mean variance (v # vs) = fsumsq mean (fl (variance + Pow2 (fl (v - mean)))) vs"

definition calculateVariance :: "real list \<Rightarrow> real" where
  "calculateVariance values =
     (if length values = 0 then 0
      else
        let s = fsum 0 values;
            mean = fl (s / float64 (int (length values)));
            variance = fsumsq mean 0 values
        in fl (variance / float64 (int (length values))))"

definition calculateConfidence :: "WorkloadMetrics \<Rightarrow> real" where
  "calculateConfidence metrics =
     (let dataPoints = length (usage metrics) in
      if dataPoints < 5 then fl (3/10)
      else if dataPoints < 20 then fl (6/10)
      else
        let cpuValues = map (\<lambda>u. float64 (MilliValue (CPUUsage u))) (usage metrics);
            variance = calculateVariance cpuValues
        in if variance < 100 then fl (9/10)
           else if variance < 500 then fl (7/10)
           else fl (5/10))"

definition GenerateRecommendation ::
  "WorkloadMetrics \<Rightarrow> Policy \<Rightarrow> (error + Recommendation) outcome" where
  "GenerateRecommendation metrics policy =
     (if length (usage metrics) = 0 then Return (Inl (Errorf ''no usage data available''))
      else
        case calculateCPURecommendation metrics (Cpu policy) of
          Panic p \<Rightarrow> Panic p
        | Return (cpuRec, cpuReason) \<Rightarrow>
       (case calculateMemoryRecommendation metrics (Memory policy) of
          Panic p \<Rightarrow> Panic p
        | Return (memRec, memReason) \<Rightarrow>
          Return (Inr \<lparr>CPURequest = Request cpuRec, CPULimit = Limit cpuRec,
                       MemoryRequest = Request memRec, MemoryLimit = Limit memRec,
                       RecReason = Sprintf ''CPU: %s, Memory: %s'' [cpuReason, memReason],
                       Confidence = calculateConfidence metrics\<rparr>)))"

section \<open>Reconciliation controller\<close>

text \<open>
  The status of a ResourceOptimizer. The request and limit strings of a
  \<open>ResourceRecommendation\<close> are \<open>Quantity.String()\<close> of the analyzer's quantities and are
  kept as those quantities; its fields \<open>Confidence\<close> and \<open>Reason\<close> are named
  \<open>stConfidence\<close> and \<open>stReason\<close>, the target's \<open>Name\<close> and \<open>Namespace\<close>
  \<open>refName\<close> and \<open>refNamespace\<close>, the resource's \<open>Status\<close> \<open>roStatus\<close>.
\<close>

record ResourceRecommendation =
  CPU :: requestLimit
  MemoryRec :: requestLimit
  stConfidence :: int
  stReason :: ftext
  GeneratedAt :: time

record ResourceOptimizerStatus =
  Conditions :: "Condition list"
  CurrentRecommendation :: "ResourceRecommendation option"
  LastOptimized :: "time option"

record TargetRef =
  Kind :: string
  refName :: string
  refNamespace :: string

record ResourceOptimizerSpec =
  TargetRef :: TargetRef
  Policy :: Policy

record ResourceOptimizer =
  Spec :: ResourceOptimizerSpec
  roStatus :: ResourceOptimizerStatus

record Event =
  eventType :: string
  eventReason :: string
  eventMessage :: ftext

text \<open>
  What one pass finds outside: the answer of \<open>r.Get\<close> for the request, the answer of
  \<open>r.Get\<close> for a deployment key (namespace, name), the usage store, the answer of the
  \<open>n\<close>-th \<open>Status().Update\<close> (\<open>None\<close> is success), and the clock.
\<close>

record cluster =
  getResource :: "error + ResourceOptimizer"
  getDeployment :: "string \<Rightarrow> string \<Rightarrow> error + Deployment"
  metricsStore :: usage_store
  statusUpdate :: "nat \<Rightarrow> error option"
  wallClock :: clock

text \<open>
  What a pass has done so far: the clock readings taken, the usage-store queries made, the
  status updates attempted, the statuses that were persisted (in order) and the events
  recorded.
\<close>

record effects =
  ticks :: nat
  queries :: nat
  updateCalls :: nat
  persisted :: "ResourceOptimizerStatus list"
  events :: "Event list"

definition Minute :: int where
  "Minute = 60000000000"

record Result =
  RequeueAfter :: int

definition IgnoreNotFound :: "error \<Rightarrow> error option" where
  "IgnoreNotFound err = (if IsNotFound err then None else Some err)"

text \<open>\<open>addCondition\<close> applied to the status of the resource held by the pass.\<close>

definition addConditionTo ::
  "cluster \<Rightarrow> effects \<Rightarrow> ResourceOptimizer \<Rightarrow> string \<Rightarrow> ConditionStatus \<Rightarrow> string \<Rightarrow> ftext \<Rightarrow>
   ResourceOptimizer \<times> effects" where
  "addConditionTo c eff ro condType statusType reason message =
     (case addCondition (wallClock c) (ticks eff) (Conditions (roStatus ro))
             condType statusType reason message of
        (conds, k) \<Rightarrow>
          (ro\<lparr>roStatus := (roStatus ro)\<lparr>Conditions := conds\<rparr>\<rparr>, eff\<lparr>ticks := k\<rparr>))"

definition updateStatus ::
  "cluster \<Rightarrow> effects \<Rightarrow> ResourceOptimizer \<Rightarrow> error option \<times> effects" where
  "updateStatus c eff ro =
     (case statusUpdate c (updateCalls eff) of
        Some err \<Rightarrow> (Some err, eff\<lparr>updateCalls := Suc (updateCalls eff)\<rparr>)
      | None \<Rightarrow> (None, eff\<lparr>updateCalls := Suc (updateCalls eff),
                            persisted := persisted eff @ [roStatus ro]\<rparr>))"

definition getDeploymentObject ::
  "cluster \<Rightarrow> effects \<Rightarrow> ResourceOptimizer \<Rightarrow> (error + Deployment) \<times> effects" where
  "getDeploymentObject c eff ro =
     (case getDeployment c (refNamespace (TargetRef (Spec ro))) (refName (TargetRef (Spec ro))) of
        Inl err \<Rightarrow> (Inl err, eff)
      | Inr existingDeployment \<Rightarrow>
          (Inr existingDeployment,
           eff\<lparr>events := events eff @
             [\<lparr>eventType = ''Normal'', eventReason = ''DeploymentFound'',
               eventMessage = Lit ''Deployment found successfully''\<rparr>]\<rparr>))"

definition analyzeAndOptimize ::
  "cluster \<Rightarrow> effects \<Rightarrow> ResourceOptimizer \<Rightarrow> Deployment \<Rightarrow>
   (ResourceOptimizer \<times> error option \<times> effects) outcome" where
  "analyzeAndOptimize c eff ro d =
     (case CollectWorkloadMetrics (metricsStore c) (queries eff) d of
        (Inl err, q) \<Rightarrow> Return (ro, Some err, eff\<lparr>queries := q\<rparr>)
      | (Inr workloadMetrics, q) \<Rightarrow>
          if length (usage workloadMetrics) = 0 then
            (case addConditionTo c (eff\<lparr>queries := q\<rparr>) ro ''OptimizationReady'' ConditionFalse
                    ''NoMetricsData'' (Lit ''Waiting for metrics data to be available'') of
               (ro1, eff1) \<Rightarrow> Return (ro1, None, eff1))
          else
            (case GenerateRecommendation workloadMetrics (Policy (Spec ro)) of
               Panic p \<Rightarrow> Panic p
             | Return (Inl err) \<Rightarrow> Return (ro, Some err, eff\<lparr>queries := q\<rparr>)
             | Return (Inr recommendation) \<Rightarrow>
                 let eff1 = eff\<lparr>queries := q, events := events eff @
                       [\<lparr>eventType = ''Normal'', eventReason = ''RecommendationGenerated'',
                         eventMessage = Sprintf ''CPU: %s/%s, Memory: %s/%s (confidence: %.2f)''
                           [QuantityString (CPURequest recommendation),
                            QuantityString (CPULimit recommendation),
                            QuantityString (MemoryRequest recommendation),
                            QuantityString (MemoryLimit recommendation),
                            FloatArg (Confidence recommendation)]\<rparr>]\<rparr>;
                     ro1 = ro\<lparr>roStatus := (roStatus ro)\<lparr>CurrentRecommendation := Some
                       \<lparr>CPU = \<lparr>Request = CPURequest recommendation,
                               Limit = CPULimit recommendation\<rparr>,
                        MemoryRec = \<lparr>Request = MemoryRequest recommendation,
                                     Limit = MemoryLimit recommendation\<rparr>,
                        stConfidence = toInt32 (fl (Confidence recommendation * 100)),
                        stReason = RecReason recommendation,
                        GeneratedAt = wallClock c (ticks eff1)\<rparr>\<rparr>\<rparr>;
                     eff2 = eff1\<lparr>ticks := Suc (ticks eff1)\<rparr>
                 in case addConditionTo c eff2 ro1 ''OptimizationReady'' ConditionTrue
                           ''RecommendationGenerated'' (RecReason recommendation) of
                      (ro2, eff3) \<Rightarrow> Return (ro2, None, eff3)))"

definition Reconcile ::
  "cluster \<Rightarrow> effects \<Rightarrow> ((Result \<times> error option) \<times> effects) outcome" where
  "Reconcile c eff =
     (case getResource c of
        Inl err \<Rightarrow> Return ((\<lparr>RequeueAfter = 0\<rparr>, IgnoreNotFound err), eff)
      | Inr resourceOptimizer \<Rightarrow>
         (case getDeploymentObject c eff resourceOptimizer of
            (Inl err, eff1) \<Rightarrow>
              if IsNotFound err then
                (case addConditionTo c eff1 resourceOptimizer ''DeploymentReady'' ConditionFalse
                        ''TargetNotFound'' (Lit ''Target Deployment does not exist yet'') of
                   (ro1, eff2) \<Rightarrow>
                     Return ((\<lparr>RequeueAfter = Minute * 5\<rparr>, None),
                             snd (updateStatus c eff2 ro1)))
              else Return ((\<lparr>RequeueAfter = 0\<rparr>, Some err), eff1)
          | (Inr d, eff1) \<Rightarrow>
             (case addConditionTo c eff1 resourceOptimizer ''DeploymentReady'' ConditionTrue
                     ''TargetFound'' (Lit ''Target Deployment exists'') of
                (ro1, eff2) \<Rightarrow>
                 (case analyzeAndOptimize c eff2 ro1 d of
                    Panic p \<Rightarrow> Panic p
                  | Return (ro2, Some err, eff3) \<Rightarrow>
                     (case addConditionTo c eff3 ro2 ''OptimizationReady'' ConditionFalse
                             ''AnalysisFailed'' (Lit (Error err)) of
                        (ro3, eff4) \<Rightarrow>
                          Return ((\<lparr>RequeueAfter = Minute * 10\<rparr>, None),
                                  snd (updateStatus c eff4 ro3)))
                  | Return (ro2, None, eff3) \<Rightarrow>
                     (case addConditionTo c eff3 ro2 ''Ready'' ConditionTrue
                             ''AllSubresourcesReady'' (Lit ''All subresources are ready'') of
                        (ro3, eff4) \<Rightarrow>
                         (case updateStatus c eff4 ro3 of
                            (Some err, eff5) \<Rightarrow> Return ((\<lparr>RequeueAfter = 0\<rparr>, Some err), eff5)
                          | (None, eff5) \<Rightarrow>
                              Return ((\<lparr>RequeueAfter = Minute * 15\<rparr>, None), eff5)))))))"

section \<open>The formulas in the words of the specification\<close>

text \<open>
  The CPU and memory formulas and the confidence tiers as the specification states them,
  in exact arithmetic, for comparison with the analyzer. CPU values are in thousandths of a
  core, memory values in bytes.
\<close>

definition spec_cpuRequest :: "real list \<Rightarrow> real \<Rightarrow> real \<Rightarrow> real \<Rightarrow> real" where
  "spec_cpuRequest cpuMillis targetUtilization cpuMin cpuMax =
     (let avg = sum_list cpuMillis / of_nat (length cpuMillis);
          target = avg / (targetUtilization / 100)
      in min cpuMax (max cpuMin target))"

definition spec_cpuLimit :: "real \<Rightarrow> real \<Rightarrow> real" where
  "spec_cpuLimit request peak = max (request * (3/2)) (peak * (11/10))"

definition spec_memoryRequest :: "real \<Rightarrow> real \<Rightarrow> real" where
  "spec_memoryRequest peak bufferPercent = peak * (1 + bufferPercent / 100)"

definition spec_memoryLimit :: "real \<Rightarrow> real" where
  "spec_memoryLimit request = request * (12/10)"

definition populationVariance :: "real list \<Rightarrow> real" where
  "populationVariance xs =
     (let mean = sum_list xs / of_nat (length xs)
      in (\<Sum>x\<leftarrow>xs. (x - mean)\<^sup>2) / of_nat (length xs))"

definition spec_confidence :: "nat \<Rightarrow> real \<Rightarrow> real" where
  "spec_confidence samples variance =
     (if samples < 5 then 3/10
      else if samples < 20 then 6/10
      else if variance < 100 then 9/10
      else if variance < 500 then 7/10
      else 5/10)"

section \<open>Inputs of the worked examples\<close>

text \<open>
  The policy, the deployment and the samples that the worked examples below use: a sample is
  given by its CPU usage in thousandths of a core and its memory usage in bytes.
\<close>

definition examplePolicy :: Policy where
  "examplePolicy = \<lparr>Cpu = \<lparr>Min_str = ''100m'', Max_str = ''800m'', TargetUtilization = 50\<rparr>,
                     Memory = \<lparr>BufferPercent = 20\<rparr>\<rparr>"

definition exampleDeployment :: Deployment where
  "exampleDeployment = \<lparr>Name = ''api'', Namespace = ''prod'', Selector = ''app=api''\<rparr>"

definition sample :: "int \<Rightarrow> int \<Rightarrow> UsageData" where
  "sample cpuMilli memBytes =
     \<lparr>CPUUsage = of_int cpuMilli / 1000, MemoryUsage = of_int memBytes, Timestamp = 0\<rparr>"

definition series :: "UsageData list \<Rightarrow> WorkloadMetrics" where
  "series us = \<lparr>deployment = exampleDeployment, usage = us\<rparr>"

definition cpuSeries :: "int list \<Rightarrow> WorkloadMetrics" where
  "cpuSeries cpuMillis = series (map (\<lambda>c. sample c 0) cpuMillis)"

text \<open>
  A resource with that policy and an empty status; a pod snapshot with one container; a
  cluster that holds the resource and its target, answers every usage query with the given
  answer, accepts every status update and whose clock reads 100, 101, ...; and a pass that
  has done nothing yet.
\<close>

definition exampleResource :: ResourceOptimizer where
  "exampleResource =
     \<lparr>Spec = \<lparr>TargetRef = \<lparr>Kind = ''Deployment'', refName = ''api'', refNamespace = ''prod''\<rparr>,
              Policy = examplePolicy\<rparr>,
      roStatus = \<lparr>Conditions = [], CurrentRecommendation = None, LastOptimized = None\<rparr>\<rparr>"

definition pod :: "string \<Rightarrow> quantity \<Rightarrow> quantity \<Rightarrow> PodMetrics" where
  "pod name cpu mem =
     \<lparr>podName = name, podTimestamp = 0,
      Containers = [\<lparr>containerName = ''app'', Usage = [''cpu'' \<mapsto> cpu, ''memory'' \<mapsto> mem]\<rparr>]\<rparr>"

definition clusterWith :: "error + PodMetrics list \<Rightarrow> cluster" where
  "clusterWith answer =
     \<lparr>getResource = Inr exampleResource,
      getDeployment = (\<lambda>ns n. Inr exampleDeployment),
      metricsStore = (\<lambda>n ns sel. answer),
      statusUpdate = (\<lambda>n. None),
      wallClock = (\<lambda>n. 100 + n)\<rparr>"

definition noEffects :: effects where
  "noEffects = \<lparr>ticks = 0, queries = 0, updateCalls = 0, persisted = [], events = []\<rparr>"

section \<open>Properties of the rounding\<close>

lemma rne_of_int: "rne (of_int n) = n"
  by (simp add: rne_def)

lemma rne_mono: "a \<le> b \<Longrightarrow> rne a \<le> rne b"
proof -
  assume ab: "a \<le> b"
  have fa: "of_int \<lfloor>a\<rfloor> \<le> a" "a < of_int \<lfloor>a\<rfloor> + 1" by linarith+
  have fb: "of_int \<lfloor>b\<rfloor> \<le> b" "b < of_int \<lfloor>b\<rfloor> + 1" by linarith+
  have lo: "\<lfloor>a\<rfloor> \<le> rne a" "rne a \<le> \<lfloor>a\<rfloor> + 1" by (simp_all add: rne_def Let_def)
  have lob: "\<lfloor>b\<rfloor> \<le> rne b" by (simp add: rne_def Let_def)
  have fab: "\<lfloor>a\<rfloor> \<le> \<lfloor>b\<rfloor>" using ab by (rule floor_mono)
  show ?thesis
  proof (cases "\<lfloor>a\<rfloor> < \<lfloor>b\<rfloor>")
    case True
    then show ?thesis using lo lob by linarith
  next
    case False
    then have eq: "\<lfloor>a\<rfloor> = \<lfloor>b\<rfloor>" using fab by simp
    then have "a - of_int \<lfloor>b\<rfloor> \<le> b - of_int \<lfloor>b\<rfloor>" using ab by simp
    then show ?thesis using eq by (auto simp: rne_def Let_def)
  qed
qed

lemma lb_up_bounds: "1 \<le> x \<Longrightarrow> 2 ^ lb_up x \<le> x \<and> x < 2 * 2 ^ lb_up x"
proof (induction x rule: lb_up.induct)
  case (1 x)
  show ?case
  proof (cases "x < 2")
    case True
    then show ?thesis using "1.prems" by (simp add: lb_up.simps)
  next
    case False
    then have "1 \<le> x / 2" by simp
    from "1.IH" [OF False this] have "2 ^ lb_up (x / 2) \<le> x / 2 \<and> x / 2 < 2 * 2 ^ lb_up (x / 2)" .
    moreover have "lb_up x = Suc (lb_up (x / 2))" using False by (subst lb_up.simps) simp
    ultimately show ?thesis by simp
  qed
qed

lemma lb_dn_bounds: "0 < x \<Longrightarrow> x < 1 \<Longrightarrow> 1 \<le> x * 2 ^ lb_dn x \<and> x * 2 ^ lb_dn x < 2"
proof (induction x rule: lb_dn.induct)
  case (1 x)
  have step: "lb_dn x = Suc (lb_dn (2 * x))" using "1.prems" by (subst lb_dn.simps) simp
  show ?case
  proof (cases "2 * x < 1")
    case True
    have "\<not> (x \<le> 0 \<or> 1 \<le> x)" using "1.prems" by simp
    moreover have "0 < 2 * x" using "1.prems" by simp
    ultimately have "1 \<le> 2 * x * 2 ^ lb_dn (2 * x) \<and> 2 * x * 2 ^ lb_dn (2 * x) < 2"
      using "1.IH" True by blast
    then show ?thesis by (simp add: step mult.commute mult.left_commute)
  next
    case False
    then have "lb_dn (2 * x) = 0" by (subst lb_dn.simps) simp
    then show ?thesis using False "1.prems" by (simp add: step)
  qed
qed

lemma ilog2_bounds:
  assumes "0 < x"
  shows "2 powi ilog2 x \<le> x" and "x < 2 powi (ilog2 x + 1)"
proof -
  have "2 powi ilog2 x \<le> x \<and> x < 2 powi (ilog2 x + 1)"
  proof (cases "1 \<le> x")
    case True
    from lb_up_bounds [OF True] show ?thesis
      by (simp add: ilog2_def True power_int_add)
  next
    case False
    then have x1: "x < 1" by simp
    define n where "n = lb_dn x"
    from lb_dn_bounds [OF assms x1] have b: "1 \<le> x * 2 ^ n" "x * 2 ^ n < 2" by (simp_all add: n_def)
    have p: "(0::real) < 2 ^ n" by simp
    have "2 powi (- int n) = 1 / (2::real) ^ n" by (simp add: power_int_minus_divide)
    moreover have "1 / 2 ^ n \<le> x" using b(1) p by (simp add: field_simps)
    moreover have "x < 2 / 2 ^ n" using b(2) p by (simp add: field_simps)
    moreover have "(2::real) powi (- int n + 1) = 2 / 2 ^ n"
      using power_int_add_1 [of "2::real" "- int n"] by (simp add: power_int_minus_divide)
    ultimately show ?thesis using False by (simp add: ilog2_def n_def)
  qed
  then show "2 powi ilog2 x \<le> x" and "x < 2 powi (ilog2 x + 1)" by simp_all
qed

lemma ilog2_eqI:
  assumes "2 powi e \<le> x" "x < 2 powi (e + 1)"
  shows "ilog2 x = e"
proof -
  have "(0::real) < 2 powi e" by simp
  then have pos: "0 < x" using assms(1) by linarith
  note b = ilog2_bounds [OF pos]
  have "(2::real) powi e < 2 powi (ilog2 x + 1)" using assms(1) b(2) by simp
  then have "e < ilog2 x + 1"
    by (metis power_int_increasing not_le one_le_numeral)
  moreover have "(2::real) powi ilog2 x < 2 powi (e + 1)" using assms(2) b(1) by simp
  then have "ilog2 x < e + 1"
    by (metis power_int_increasing not_le one_le_numeral)
  ultimately show ?thesis by simp
qed

lemma fl_eqI:
  assumes "2 powi e \<le> \<bar>x\<bar>" "\<bar>x\<bar> < 2 powi (e + 1)"
  shows "fl x = round_at (e - 52) x"
  by (simp add: fl_def ilog2_eqI [OF assms])


lemma fl_0: "fl 0 = 0"
  by (simp add: fl_def round_at_def)

lemma fl_minus: "fl (- x) = - fl x"
  by (simp add: fl_def round_at_def sgn_minus)

lemma fl_pos:
  assumes "0 < x"
  shows "fl x = of_int (rne (x / 2 powi (ilog2 x - 52))) * 2 powi (ilog2 x - 52)"
  using assms by (simp add: fl_def round_at_def)

lemma scaled_bounds:
  assumes "0 < x"
  shows "2 ^ 52 \<le> x / 2 powi (ilog2 x - 52)" and "x / 2 powi (ilog2 x - 52) < 2 ^ 53"
proof -
  have s: "(0::real) < 2 powi (ilog2 x - 52)" by simp
  have a: "(2::real) powi ilog2 x = 2 ^ 52 * 2 powi (ilog2 x - 52)"
    using power_int_add [of "2::real" 52 "ilog2 x - 52"] by simp
  have b: "(2::real) powi (ilog2 x + 1) = 2 ^ 53 * 2 powi (ilog2 x - 52)"
    using power_int_add [of "2::real" 53 "ilog2 x - 52"] by (simp add: add.commute)
  show "2 ^ 52 \<le> x / 2 powi (ilog2 x - 52)"
    using ilog2_bounds(1) [OF assms] s unfolding a by (simp add: pos_le_divide_eq)
  show "x / 2 powi (ilog2 x - 52) < 2 ^ 53"
    using ilog2_bounds(2) [OF assms] s unfolding b by (simp add: pos_divide_less_eq)
qed

lemma rne_scaled_bounds:
  assumes "0 < x"
  shows "2 ^ 52 \<le> rne (x / 2 powi (ilog2 x - 52))" and "rne (x / 2 powi (ilog2 x - 52)) \<le> 2 ^ 53"
proof -
  have "rne (of_int (2 ^ 52)) \<le> rne (x / 2 powi (ilog2 x - 52))"
    using scaled_bounds(1) [OF assms] by (intro rne_mono) simp
  then show "2 ^ 52 \<le> rne (x / 2 powi (ilog2 x - 52))" by (simp only: rne_of_int)
  have "rne (x / 2 powi (ilog2 x - 52)) \<le> rne (of_int (2 ^ 53))"
    using scaled_bounds(2) [OF assms] by (intro rne_mono) simp
  then show "rne (x / 2 powi (ilog2 x - 52)) \<le> 2 ^ 53" by (simp only: rne_of_int)
qed

lemma fl_pos_bounds:
  assumes "0 < x"
  shows "2 powi ilog2 x \<le> fl x" and "fl x \<le> 2 powi (ilog2 x + 1)"
proof -
  define s :: real where "s = 2 powi (ilog2 x - 52)"
  define m where "m = rne (x / s)"
  have s: "0 < s" by (simp add: s_def)
  have a: "(2::real) powi ilog2 x = 2 ^ 52 * s"
    using power_int_add [of "2::real" 52 "ilog2 x - 52"] by (simp add: s_def)
  have b: "(2::real) powi (ilog2 x + 1) = 2 ^ 53 * s"
    using power_int_add [of "2::real" 53 "ilog2 x - 52"] by (simp add: s_def add.commute)
  have f: "fl x = of_int m * s" using fl_pos [OF assms] by (simp add: m_def s_def)
  have m: "2 ^ 52 \<le> m" "m \<le> 2 ^ 53" using rne_scaled_bounds [OF assms] by (simp_all add: m_def s_def)
  have "(2::real) ^ 52 \<le> of_int m" using m(1) by simp
  then show "2 powi ilog2 x \<le> fl x" unfolding a f using s by simp
  have "of_int m \<le> (2::real) ^ 53" using m(2) by simp
  then show "fl x \<le> 2 powi (ilog2 x + 1)" unfolding b f using s by simp
qed

lemma fl_pos_pos: "0 < x \<Longrightarrow> 0 < fl x"
  using fl_pos_bounds(1) [of x] zero_less_power_int [of "2::real" "ilog2 x"] by linarith

lemma ilog2_mono:
  assumes "0 < x" "x \<le> y"
  shows "ilog2 x \<le> ilog2 y"
proof -
  have "0 < y" using assms by simp
  have "(2::real) powi ilog2 x < 2 powi (ilog2 y + 1)"
    using ilog2_bounds(1) [OF assms(1)] ilog2_bounds(2) [OF \<open>0 < y\<close>] assms(2) by linarith
  then have "ilog2 x < ilog2 y + 1"
    by (metis power_int_increasing not_le one_le_numeral)
  then show ?thesis by simp
qed

lemma fl_mono_pos:
  assumes "0 < x" "x \<le> y"
  shows "fl x \<le> fl y"
proof -
  have y: "0 < y" using assms by simp
  show ?thesis
  proof (cases "ilog2 x = ilog2 y")
    case True
    define s :: real where "s = 2 powi (ilog2 y - 52)"
    have s: "0 < s" by (simp add: s_def)
    have "x / s \<le> y / s" using assms(2) s by (simp add: divide_right_mono)
    then have "rne (x / s) \<le> rne (y / s)" by (rule rne_mono)
    then have "(of_int (rne (x / s)) :: real) * s \<le> of_int (rne (y / s)) * s"
      using s by simp
    then show ?thesis using fl_pos [OF assms(1)] fl_pos [OF y] True by (simp add: s_def)
  next
    case False
    then have "ilog2 x + 1 \<le> ilog2 y" using ilog2_mono [OF assms] by simp
    then have "(2::real) powi (ilog2 x + 1) \<le> 2 powi ilog2 y"
      by (intro power_int_increasing) simp_all
    then show ?thesis
      using fl_pos_bounds(2) [OF assms(1)] fl_pos_bounds(1) [OF y] by linarith
  qed
qed

lemma fl_nonneg: "0 \<le> x \<Longrightarrow> 0 \<le> fl x"
  using fl_pos_pos [of x] fl_0 by (cases "x = 0") (simp_all add: less_le)

lemma fl_mono:
  assumes "x \<le> y"
  shows "fl x \<le> fl y"
proof -
  consider "0 < x" | "x \<le> 0" "0 \<le> y" | "y < 0" by linarith
  then show ?thesis
  proof cases
    case 1
    then show ?thesis using assms by (rule fl_mono_pos)
  next
    case 2
    have "0 \<le> fl (- x)" using 2(1) by (intro fl_nonneg) simp
    then have "fl x \<le> 0" by (simp add: fl_minus)
    moreover have "0 \<le> fl y" using 2(2) by (rule fl_nonneg)
    ultimately show ?thesis by linarith
  next
    case 3
    then have "0 < - y" "- y \<le> - x" using assms by simp_all
    then have "fl (- y) \<le> fl (- x)" by (rule fl_mono_pos)
    then show ?thesis by (simp add: fl_minus)
  qed
qed

lemma fl_exact:
  assumes "0 < x" "x / 2 powi (ilog2 x - 52) = of_int m"
  shows "fl x = x"
proof -
  have "fl x = of_int m * 2 powi (ilog2 x - 52)"
    using fl_pos [OF assms(1)] by (simp add: assms(2) rne_of_int)
  also have "\<dots> = x" using assms(2) by (simp add: field_simps)
  finally show ?thesis .
qed

lemma fl_of_nat_pos:
  assumes "0 < k" "k \<le> 2 ^ 53"
  shows "fl (of_int k) = of_int k"
proof -
  define x :: real where "x = of_int k"
  have x: "0 < x" "x \<le> 2 ^ 53" using assms by (simp_all add: x_def of_int_le_numeral_power_cancel_iff)
  show ?thesis
  proof (cases "x = 2 ^ 53")
    case True
    have "2 powi 53 \<le> \<bar>x\<bar>" "\<bar>x\<bar> < 2 powi (53 + 1)" by (simp_all add: True)
    from fl_eqI [OF this] show ?thesis
      unfolding x_def [symmetric] by (simp add: True round_at_def rne_def)
  next
    case False
    then have lt: "x < 2 powi 53" using x(2) by simp
    have "(2::real) powi ilog2 x < 2 powi 53" using ilog2_bounds(1) [OF x(1)] lt by linarith
    then have "ilog2 x < 53" by (metis power_int_increasing not_le one_le_numeral)
    define n where "n = nat (52 - ilog2 x)"
    have n: "ilog2 x - 52 = - int n" using \<open>ilog2 x < 53\<close> by (simp add: n_def)
    have "x / 2 powi (ilog2 x - 52) = x * 2 ^ n"
      unfolding n by (simp add: power_int_minus_divide)
    then have "x / 2 powi (ilog2 x - 52) = of_int (k * 2 ^ n)"
      by (simp add: x_def)
    from fl_exact [OF x(1) this] show ?thesis by (simp add: x_def)
  qed
qed

lemma fl_of_int:
  assumes "\<bar>k\<bar> \<le> 2 ^ 53"
  shows "fl (of_int k) = of_int k"
proof -
  consider "0 < k" | "k = 0" | "k < 0" by linarith
  then show ?thesis
  proof cases
    case 1
    then show ?thesis using assms by (intro fl_of_nat_pos) simp_all
  next
    case 2
    then show ?thesis by (simp add: fl_0)
  next
    case 3
    then have "fl (of_int (- k)) = of_int (- k)" using assms by (intro fl_of_nat_pos) simp_all
    then show ?thesis by (simp add: fl_minus)
  qed
qed

lemma float64_numeral:
  "(numeral n :: int) \<le> 2 ^ 53 \<Longrightarrow> float64 (numeral n) = numeral n"
  using fl_of_int [of "numeral n"] by (simp add: float64_def)

lemma float64_0: "float64 0 = 0"
  by (simp add: float64_def fl_0)


section \<open>Condition updates\<close>

lemma addCondition_loop_found:
  "find (\<lambda>c. Type c = condType) conds = Some c \<Longrightarrow>
   \<exists>cs'. addCondition_loop clk k now condType statusType reason message conds = Some (cs', Suc k)
     \<and> transitionTime cs' condType = Some (clk k)"
proof (induction conds)
  case Nil
  then show ?case by simp
next
  case (Cons d ds)
  show ?case
  proof (cases "Type d = condType")
    case True
    then show ?thesis by (simp add: transitionTime_def Let_def)
  next
    case False
    with Cons.prems have "find (\<lambda>c. Type c = condType) ds = Some c" by simp
    from Cons.IH [OF this] obtain cs' where
      "addCondition_loop clk k now condType statusType reason message ds = Some (cs', Suc k)"
      "transitionTime cs' condType = Some (clk k)" by blast
    with False show ?thesis by (simp add: transitionTime_def)
  qed
qed

text \<open>
  C1. The claim: re-applying a condition with the status it already has leaves its
  lastTransitionTime untouched. The code: a DeploymentReady=True condition stored with
  transition time 100 is re-applied with the same status while the clock reads 900 and 901;
  the stored transition time becomes 901, the reading of the unconditional assignment that
  follows the guarded one.
\<close>

theorem addCondition_same_status_overwrites_time:
  "fst (addCondition (\<lambda>n. 900 + n) 0
         [\<lparr>Type = ''DeploymentReady'', Status = ConditionTrue, Reason = ''TargetFound'',
           Message = Lit ''Target Deployment exists'', LastTransitionTime = 100\<rparr>]
         ''DeploymentReady'' ConditionTrue ''TargetFound'' (Lit ''Target Deployment exists''))
   = [\<lparr>Type = ''DeploymentReady'', Status = ConditionTrue, Reason = ''TargetFound'',
        Message = Lit ''Target Deployment exists'', LastTransitionTime = 901\<rparr>]"
  by (simp add: addCondition_def Let_def)

section \<open>Collected samples\<close>

lemma addContainers_sum:
  "addContainers (tc, tm) cs =
     (tc + (\<Sum>c\<leftarrow>cs. usageOf c ''cpu''), tm + (\<Sum>c\<leftarrow>cs. usageOf c ''memory''))"
  by (induction cs arbitrary: tc tm) (simp_all add: add.assoc)

lemma length_collectPods:
  "length (collectPods totals acc items) = length acc + length items"
  by (induction items arbitrary: totals acc) (simp_all add: Let_def)

lemma collectPods_running_total:
  "collectPods (tc, tm) acc items =
     acc @ map (\<lambda>i. \<lparr>CPUUsage = tc + (\<Sum>p\<leftarrow>take (Suc i) items. podCPU p),
                      MemoryUsage = tm + (\<Sum>p\<leftarrow>take (Suc i) items. podMemory p),
                      Timestamp = podTimestamp (items ! i)\<rparr>) [0..<length items]"
proof (induction items arbitrary: tc tm acc)
  case Nil
  then show ?case by simp
next
  case (Cons p ps)
  have shift: "[0..<length (p # ps)] = 0 # map Suc [0..<length ps]"
    by (simp add: upt_conv_Cons map_Suc_upt del: upt_Suc)
  show ?case
    unfolding shift
    by (simp add: Let_def addContainers_sum Cons.IH podCPU_def podMemory_def add.assoc o_def
             del: upt_Suc)
qed

text \<open>
  C2. The claim: the i-th sample holds the usage of the i-th pod snapshot alone, not a
  running total. The code: for two pods, the first using 100m CPU and 64 bytes and the
  second 50m and 32 bytes, the second sample is 150m and 96 bytes, the total of both pods.
\<close>

theorem CollectWorkloadMetrics_second_sample_accumulates:
  "fst (CollectWorkloadMetrics
     (\<lambda>n ns sel. Inr
        [\<lparr>podName = ''api-1'', podTimestamp = 10,
          Containers = [\<lparr>containerName = ''app'',
                          Usage = [''cpu'' \<mapsto> 1/10, ''memory'' \<mapsto> 64]\<rparr>]\<rparr>,
         \<lparr>podName = ''api-2'', podTimestamp = 20,
          Containers = [\<lparr>containerName = ''app'',
                          Usage = [''cpu'' \<mapsto> 1/20, ''memory'' \<mapsto> 32]\<rparr>]\<rparr>])
     0 \<lparr>Name = ''api'', Namespace = ''prod'', Selector = ''app=api''\<rparr>)
   = Inr \<lparr>deployment = \<lparr>Name = ''api'', Namespace = ''prod'', Selector = ''app=api''\<rparr>,
          usage = [\<lparr>CPUUsage = 1/10, MemoryUsage = 64, Timestamp = 10\<rparr>,
                   \<lparr>CPUUsage = 3/20, MemoryUsage = 96, Timestamp = 20\<rparr>]\<rparr>"
  by (simp add: CollectWorkloadMetrics_def Let_def usageOf_def)

text \<open>
  C9 as stated: the error returned on a failed query is the usage store's error itself.
  It is not: the store's error comes back wrapped.
\<close>

theorem CollectWorkloadMetrics_error_not_verbatim:
  "fst (CollectWorkloadMetrics (\<lambda>n ns sel. Inl (ApiError False ''connection refused'')) 0
          \<lparr>Name = ''api'', Namespace = ''prod'', Selector = ''app=api''\<rparr>)
   \<noteq> Inl (ApiError False ''connection refused'')"
  by (simp add: CollectWorkloadMetrics_def)

text \<open>
  C9, amended. When the usage-store query fails with an error \<open>e\<close>, the collector makes that
  one query only and returns no metrics but an error that wraps \<open>e\<close>: unwrapping it gives
  \<open>e\<close> back, and its text is the text of \<open>e\<close> behind the prefix
  "failed to get pod metrics: ".
\<close>

theorem CollectWorkloadMetrics_query_failure:
  assumes "store n (Namespace d) (Selector d) = Inl e"
  shows "\<exists>err. CollectWorkloadMetrics store n d = (Inl err, Suc n)
           \<and> Unwrap err = Some e
           \<and> Error err = ''failed to get pod metrics: '' @ Error e"
  using assms by (simp add: CollectWorkloadMetrics_def)

theorem CollectWorkloadMetrics_query_failure_witness:
  "\<exists>err. CollectWorkloadMetrics
            (\<lambda>n ns sel. if n = 0 then Inl (ApiError False ''connection refused'') else Inr [])
            0 \<lparr>Name = ''api'', Namespace = ''prod'', Selector = ''app=api''\<rparr> = (Inl err, Suc 0)
         \<and> Unwrap err = Some (ApiError False ''connection refused'')
         \<and> Error err = ''failed to get pod metrics: connection refused''"
  using CollectWorkloadMetrics_query_failure
    [of "\<lambda>n ns sel. if n = 0 then Inl (ApiError False ''connection refused'') else Inr []"
        0 "\<lparr>Name = ''api'', Namespace = ''prod'', Selector = ''app=api''\<rparr>"
        "ApiError False ''connection refused''"]
  by simp

section \<open>The analyzer step by step\<close>

lemma calculateCPURecommendation_steps:
  assumes "usage m \<noteq> []"
    and "cpuLoop (0, 0) (usage m) = (peak, tot)"
    and "quo tot (int (length (usage m))) = avg"
    and "toInt64_opt (fdiv (float64 avg) (fl (float64 (TargetUtilization p) / 100))) = target"
    and "MustParse (Min_str p) = Return lo"
    and "MustParse (Max_str p) = Return hi"
    and "(if target < MilliValue lo then MilliValue lo else target) = t1"
    and "(if t1 > MilliValue hi then MilliValue hi else t1) = t2"
    and "toInt64 (max (fl (float64 t2 * (3/2))) (fl (float64 peak * fl (11/10)))) = lmt"
  shows "calculateCPURecommendation m p =
     Return (\<lparr>Request = NewMilliQuantity t2, Limit = NewMilliQuantity lmt\<rparr>,
             Sprintf ''avg=%dm, peak=%dm, target=%dm'' [IntArg avg, IntArg peak, IntArg t2])"
  using assms(1)
  by (simp add: calculateCPURecommendation_def assms(2,5,6) Let_def flip: assms(3,4,7,8,9))

lemma calculateMemoryRecommendation_steps:
  assumes "usage m \<noteq> []"
    and "memLoop (0, 0) (usage m) = (peak, tot)"
    and "quo tot (int (length (usage m))) = avg"
    and "fl (1 + fl (float64 (BufferPercent p) / 100)) = mult"
    and "toInt64 (fl (float64 peak * mult)) = req"
    and "toInt64 (fl (float64 req * fl (12/10))) = lmt"
  shows "calculateMemoryRecommendation m p =
     Return (\<lparr>Request = NewQuantity req, Limit = NewQuantity lmt\<rparr>,
             Sprintf ''avg=%s, peak=%s, buffer=%d%%''
               [QuantityString (NewQuantity avg), QuantityString (NewQuantity peak),
                IntArg (BufferPercent p)])"
  using assms(1)
  by (simp add: calculateMemoryRecommendation_def assms(2) Let_def flip: assms(3,4,5,6))

section \<open>CPU request bounds\<close>

lemma int64_id: "- (2 ^ 63) \<le> x \<Longrightarrow> x < 2 ^ 63 \<Longrightarrow> int64 x = x"
  by (simp add: int64_def)

lemma roundUp_of_int: "roundUp (of_int k) = k"
  by (simp add: roundUp_def)

lemma MustParse_whole_milli:
  assumes "MustParse s = Return q"
  shows "\<exists>n::nat. q * 1000 = of_nat n"
proof -
  have ne: "s \<noteq> []" using assms by (auto simp: MustParse_def)
  show ?thesis
  proof (cases "last s = CHR ''m'' \<and> butlast s \<noteq> []")
    case True
    show ?thesis
    proof (cases "digits 0 (butlast s)")
      case None
      with assms ne True show ?thesis by (simp add: MustParse_def)
    next
      case (Some n)
      with assms ne True have "q = of_nat n / 1000" by (simp add: MustParse_def)
      then have "q * 1000 = of_nat n" by simp
      then show ?thesis by (rule exI)
    qed
  next
    case False
    show ?thesis
    proof (cases "digits 0 s")
      case None
      with assms ne False show ?thesis by (auto simp: MustParse_def)
    next
      case (Some n)
      with assms ne False have "q = of_nat n" by (auto simp: MustParse_def)
      then have "q * 1000 = of_nat (n * 1000)" by simp
      then show ?thesis by (rule exI)
    qed
  qed
qed

lemma MilliValue_MustParse:
  assumes "MustParse s = Return q" and "q * 1000 < 2 ^ 63"
  shows "of_int (MilliValue q) = q * 1000" and "0 \<le> MilliValue q"
proof -
  obtain n :: nat where n: "q * 1000 = of_nat n"
    using MustParse_whole_milli [OF assms(1)] by (rule exE)
  have qi: "q * 1000 = of_int (int n)" using n by simp
  have r: "roundUp (q * 1000) = int n" unfolding qi by (rule roundUp_of_int)
  have "(of_int (int n) :: real) < of_int (2 ^ 63)" using assms(2) unfolding qi by simp
  then have "int n < 2 ^ 63" by (simp only: of_int_less_iff)
  then have "int64 (int n) = int n" by (intro int64_id) simp_all
  then have m: "MilliValue q = int n" by (simp add: MilliValue_def r)
  show "of_int (MilliValue q) = q * 1000" using m qi by simp
  show "0 \<le> MilliValue q" using m by simp
qed

text \<open>
  C6, amended. For a non-empty usage series and a policy whose bounds parse with
  cpuMin \<le> cpuMax and cpuMax below \<open>2 ^ 63\<close> thousandths of a core (so that both bounds
  fit an \<open>int64\<close> of thousandths), \<open>calculateCPURecommendation\<close> returns, and the CPU
  request it returns lies in [cpuMin, cpuMax], whatever the series average is.
\<close>

theorem cpu_request_within_policy_bounds:
  assumes "usage metrics \<noteq> []"
    and "MustParse (Min_str policy) = Return cpuMin"
    and "MustParse (Max_str policy) = Return cpuMax"
    and "cpuMin \<le> cpuMax"
    and "cpuMax * 1000 < 2 ^ 63"
  shows "\<exists>rec reason. calculateCPURecommendation metrics policy = Return (rec, reason)
           \<and> cpuMin \<le> Request rec \<and> Request rec \<le> cpuMax"
proof -
  obtain peak tot where loop: "cpuLoop (0, 0) (usage metrics) = (peak, tot)"
    by (cases "cpuLoop (0, 0) (usage metrics)")
  define target where "target = toInt64_opt
     (fdiv (float64 (quo tot (int (length (usage metrics)))))
           (fl (float64 (TargetUtilization policy) / 100)))"
  define t1 where "t1 = (if target < MilliValue cpuMin then MilliValue cpuMin else target)"
  define t2 where "t2 = (if t1 > MilliValue cpuMax then MilliValue cpuMax else t1)"
  have fitMin: "cpuMin * 1000 < 2 ^ 63" using assms(4,5) by simp
  have mMin: "of_int (MilliValue cpuMin) = cpuMin * 1000"
    using MilliValue_MustParse(1) [OF assms(2) fitMin] .
  have mMax: "of_int (MilliValue cpuMax) = cpuMax * 1000"
    using MilliValue_MustParse(1) [OF assms(3,5)] .
  have "(of_int (MilliValue cpuMin) :: real) \<le> of_int (MilliValue cpuMax)"
    unfolding mMin mMax using assms(4) by simp
  then have le: "MilliValue cpuMin \<le> MilliValue cpuMax" by (simp only: of_int_le_iff)
  have t2: "MilliValue cpuMin \<le> t2" "t2 \<le> MilliValue cpuMax"
    using le by (auto simp: t1_def t2_def)
  have req: "\<exists>rec reason. calculateCPURecommendation metrics policy = Return (rec, reason)
      \<and> Request rec = NewMilliQuantity t2"
    using assms(1)
    by (simp add: calculateCPURecommendation_def loop assms(2,3) Let_def
          target_def t1_def t2_def)
  have lo: "cpuMin \<le> NewMilliQuantity t2"
  proof -
    have "(of_int (MilliValue cpuMin) :: real) \<le> of_int t2" using t2(1) by simp
    then have "cpuMin * 1000 \<le> of_int t2" unfolding mMin .
    then show ?thesis by (simp add: NewMilliQuantity_def pos_le_divide_eq)
  qed
  have hi: "NewMilliQuantity t2 \<le> cpuMax"
  proof -
    have "(of_int t2 :: real) \<le> of_int (MilliValue cpuMax)" using t2(2) by simp
    then have "of_int t2 \<le> cpuMax * 1000" unfolding mMax .
    then show ?thesis by (simp add: NewMilliQuantity_def pos_divide_le_eq)
  qed
  from req lo hi show ?thesis by auto
qed

theorem cpu_request_within_policy_bounds_witness:
  "[\<lparr>CPUUsage = 5, MemoryUsage = 0, Timestamp = 0\<rparr>] \<noteq> []
   \<and> MustParse ''100m'' = Return (1/10) \<and> MustParse ''800m'' = Return (4/5)
   \<and> (1/10 :: real) \<le> 4/5 \<and> (4/5 :: real) * 1000 < 2 ^ 63
   \<and> (\<exists>rec reason.
        calculateCPURecommendation
          \<lparr>deployment = \<lparr>Name = ''api'', Namespace = ''prod'', Selector = ''app=api''\<rparr>,
           usage = [\<lparr>CPUUsage = 5, MemoryUsage = 0, Timestamp = 0\<rparr>]\<rparr>
          \<lparr>Min_str = ''100m'', Max_str = ''800m'', TargetUtilization = 50\<rparr>
          = Return (rec, reason)
        \<and> 1/10 \<le> Request rec \<and> Request rec \<le> 4/5)"
  using cpu_request_within_policy_bounds
    [of "\<lparr>deployment = \<lparr>Name = ''api'', Namespace = ''prod'', Selector = ''app=api''\<rparr>,
          usage = [\<lparr>CPUUsage = 5, MemoryUsage = 0, Timestamp = 0\<rparr>]\<rparr>"
        "\<lparr>Min_str = ''100m'', Max_str = ''800m'', TargetUtilization = 50\<rparr>"
        "1/10" "4/5"]
  by (simp add: MustParse_def digitVal_def)

text \<open>
  C6 as stated: for every policy with cpuMin \<le> cpuMax the request lies in [cpuMin, cpuMax].
  The bounds 100m and 10000000000000000 (cores) pass the schema and are in order, but the
  maximum is \<open>10 ^ 19\<close> thousandths of a core, which \<open>MilliValue\<close> returns as the
  \<open>int64\<close> -8446744073709551616; the target 400 is above that, so the request becomes
  -8446744073709551616m, below cpuMin.
\<close>

theorem cpu_request_outside_policy_bounds:
  "MustParse ''100m'' = Return (1/10)
   \<and> MustParse ''10000000000000000'' = Return 10000000000000000
   \<and> calculateCPURecommendation (series [sample 200 0])
         \<lparr>Min_str = ''100m'', Max_str = ''10000000000000000'', TargetUtilization = 50\<rparr>
       = Return (\<lparr>Request = NewMilliQuantity (- 8446744073709551616),
                  Limit = NewMilliQuantity 220\<rparr>,
                 Sprintf ''avg=%dm, peak=%dm, target=%dm''
                   [IntArg 200, IntArg 200, IntArg (- 8446744073709551616)])
   \<and> NewMilliQuantity (- 8446744073709551616) < 1/10"
proof -
  let ?m = "series [sample 200 0]"
  let ?p = "\<lparr>Min_str = ''100m'', Max_str = ''10000000000000000'', TargetUtilization = 50\<rparr>"
  have lo: "MustParse ''100m'' = Return (1/10)" by (simp add: MustParse_def digitVal_def)
  have hi: "MustParse ''10000000000000000'' = Return 10000000000000000"
    by (simp add: MustParse_def digitVal_def)
  have "calculateCPURecommendation ?m ?p
        = Return (\<lparr>Request = NewMilliQuantity (- 8446744073709551616),
                   Limit = NewMilliQuantity 220\<rparr>,
                  Sprintf ''avg=%dm, peak=%dm, target=%dm''
                    [IntArg 200, IntArg 200, IntArg (- 8446744073709551616)])"
  proof (rule calculateCPURecommendation_steps)
    show "usage ?m \<noteq> []" by (simp add: series_def)
    show "cpuLoop (0, 0) (usage ?m) = (200, 200)"
      by (simp add: series_def sample_def MilliValue_def roundUp_def int64_def)
    show "quo 200 (int (length (usage ?m))) = 200" by (simp add: series_def quo_def)
    show "toInt64_opt (fdiv (float64 200) (fl (float64 (TargetUtilization ?p) / 100))) = 400"
      by (simp add: float64_numeral fdiv_def toInt64_opt_def toInt64_def
            trunc_def fl_eqI [of "-1"] fl_eqI [of 8] round_at_def rne_def)
    show "MustParse (Min_str ?p) = Return (1/10)" using lo by simp
    show "MustParse (Max_str ?p) = Return 10000000000000000" using hi by simp
    show "(if (400::int) < MilliValue (1/10) then MilliValue (1/10) else 400) = 400"
      by (simp add: MilliValue_def roundUp_def int64_def)
    show "(if (400::int) > MilliValue 10000000000000000 then MilliValue 10000000000000000
           else 400) = - 8446744073709551616"
      by (simp add: MilliValue_def roundUp_def int64_def)
    show "toInt64 (max (fl (float64 (- 8446744073709551616) * (3/2)))
                       (fl (float64 200 * fl (11/10)))) = 220"
      by (simp add: float64_numeral float64_def fl_minus toInt64_def trunc_def fl_eqI [of 0]
            fl_eqI [of 7] fl_eqI [of 62] fl_eqI [of 63] round_at_def rne_def)
  qed
  moreover have "NewMilliQuantity (- 8446744073709551616) < 1/10"
    by (simp add: NewMilliQuantity_def)
  ultimately show ?thesis using lo hi by simp
qed

section \<open>Reconciliation passes\<close>

lemma GenerateRecommendation_error_iff_empty:
  assumes "MustParse (Min_str (Cpu p)) = Return a" "MustParse (Max_str (Cpu p)) = Return b"
  shows "(\<exists>e. GenerateRecommendation m p = Return (Inl e)) \<longleftrightarrow> usage m = []"
  using assms
  by (cases "cpuLoop (0, 0) (usage m)"; cases "memLoop (0, 0) (usage m)")
     (auto simp: GenerateRecommendation_def calculateCPURecommendation_def
        calculateMemoryRecommendation_def Let_def)

text \<open>
  C3. The claim: on an empty collected series the controller sets
  OptimizationReady=False/NoMetricsData, persists the status and stops the pass there,
  with no further status mutation. The code: \<open>analyzeAndOptimize\<close> returns nil after
  setting the condition, so \<open>Reconcile\<close> goes on as after a successful analysis: it adds
  Ready=True/AllSubresourcesReady, persists the status with the three conditions and asks
  for the next pass in 15 minutes.
\<close>

theorem Reconcile_no_metrics_sets_Ready:
  "Reconcile (clusterWith (Inr [])) noEffects
   = Return ((\<lparr>RequeueAfter = Minute * 15\<rparr>, None),
       \<lparr>ticks = 3, queries = 1, updateCalls = 1,
        persisted =
          [\<lparr>Conditions =
              [\<lparr>Type = ''DeploymentReady'', Status = ConditionTrue, Reason = ''TargetFound'',
                Message = Lit ''Target Deployment exists'', LastTransitionTime = 100\<rparr>,
               \<lparr>Type = ''OptimizationReady'', Status = ConditionFalse, Reason = ''NoMetricsData'',
                Message = Lit ''Waiting for metrics data to be available'',
                LastTransitionTime = 101\<rparr>,
               \<lparr>Type = ''Ready'', Status = ConditionTrue, Reason = ''AllSubresourcesReady'',
                Message = Lit ''All subresources are ready'', LastTransitionTime = 102\<rparr>],
            CurrentRecommendation = None, LastOptimized = None\<rparr>],
        events = [\<lparr>eventType = ''Normal'', eventReason = ''DeploymentFound'',
                   eventMessage = Lit ''Deployment found successfully''\<rparr>]\<rparr>)"
  by (simp add: clusterWith_def noEffects_def exampleResource_def exampleDeployment_def
        Reconcile_def getDeploymentObject_def addConditionTo_def addCondition_def
        analyzeAndOptimize_def CollectWorkloadMetrics_def updateStatus_def Let_def)

section \<open>Confidence\<close>

lemma fl_3_10: "fl (3/10) = 5404319552844595 / 18014398509481984"
  by (simp add: fl_eqI [of "-2"] round_at_def rne_def Let_def)

lemma fl_5_10: "fl (1/2) = 1/2"
  by (simp add: fl_eqI [of "-1"] round_at_def rne_def Let_def)

lemma fl_6_10: "fl (3/5) = 5404319552844595 / 9007199254740992"
  by (simp add: fl_eqI [of "-1"] round_at_def rne_def Let_def)

lemma fl_7_10: "fl (7/10) = 3152519739159347 / 4503599627370496"
  by (simp add: fl_eqI [of "-1"] round_at_def rne_def Let_def)

lemma fl_9_10: "fl (9/10) = 8106479329266893 / 9007199254740992"
  by (simp add: fl_eqI [of "-1"] round_at_def rne_def Let_def)

lemma percent_30: "toInt32 (fl (fl (3/10) * 100)) = 30"
  by (simp add: fl_3_10 fl_eqI [of 4] round_at_def rne_def toInt32_def trunc_def Let_def)

lemma percent_50: "toInt32 (fl (fl (1/2) * 100)) = 50"
  by (simp add: fl_5_10 fl_eqI [of 5] round_at_def rne_def toInt32_def trunc_def Let_def)

lemma percent_60: "toInt32 (fl (fl (3/5) * 100)) = 60"
  by (simp add: fl_6_10 fl_eqI [of 5] round_at_def rne_def toInt32_def trunc_def Let_def)

lemma percent_70: "toInt32 (fl (fl (7/10) * 100)) = 70"
  by (simp add: fl_7_10 fl_eqI [of 6] round_at_def rne_def toInt32_def trunc_def Let_def)

lemma percent_90: "toInt32 (fl (fl (9/10) * 100)) = 90"
  by (simp add: fl_9_10 fl_eqI [of 6] round_at_def rne_def toInt32_def trunc_def Let_def)

lemma calculateConfidence_cases:
  "calculateConfidence m \<in> {fl (3/10), fl (1/2), fl (3/5), fl (7/10), fl (9/10)}"
  by (simp add: calculateConfidence_def Let_def)

lemma confidence_percent:
  assumes "x \<in> {fl (3/10), fl (1/2), fl (3/5), fl (7/10), fl (9/10)}"
  shows "toInt32 (fl (x * 100)) \<in> {30, 50, 60, 70, 90}" and "0 \<le> x" and "x \<le> 1"
proof -
  from assms consider "x = fl (3/10)" | "x = fl (1/2)" | "x = fl (3/5)" | "x = fl (7/10)"
    | "x = fl (9/10)" by blast
  then show "toInt32 (fl (x * 100)) \<in> {30, 50, 60, 70, 90}"
    by cases (simp_all only: percent_30 percent_50 percent_60 percent_70 percent_90, simp_all)
  from assms show "0 \<le> x" and "x \<le> 1"
    by (auto simp: fl_3_10 fl_5_10 fl_6_10 fl_7_10 fl_9_10)
qed

text \<open>
  C10. In every pass whose analysis succeeds (the collector returns a non-empty series and
  the analyzer a recommendation), the confidence written into the status is
  int32(100 \<times> the analyzer's confidence) and is one of 30, 50, 60, 70, 90; the analyzer's
  confidence is one of the floats 0.3, 0.5, 0.6, 0.7, 0.9, which lie in [0, 1].
\<close>

theorem status_confidence_is_percentage:
  assumes "CollectWorkloadMetrics (metricsStore c) (queries eff) d = (Inr wm, q)"
    and "usage wm \<noteq> []"
    and "GenerateRecommendation wm (Policy (Spec ro)) = Return (Inr recommendation)"
  shows "\<exists>ro' eff' r.
           analyzeAndOptimize c eff ro d = Return (ro', None, eff')
         \<and> CurrentRecommendation (roStatus ro') = Some r
         \<and> stConfidence r = toInt32 (fl (Confidence recommendation * 100))
         \<and> stConfidence r \<in> {30, 50, 60, 70, 90}
         \<and> Confidence recommendation \<in> {fl (3/10), fl (1/2), fl (3/5), fl (7/10), fl (9/10)}
         \<and> 0 \<le> Confidence recommendation \<and> Confidence recommendation \<le> 1"
proof -
  have conf: "Confidence recommendation = calculateConfidence wm"
    using assms(2,3)
    by (auto simp: GenerateRecommendation_def split: outcome.splits prod.splits)
  have mem: "Confidence recommendation \<in> {fl (3/10), fl (1/2), fl (3/5), fl (7/10), fl (9/10)}"
    unfolding conf by (rule calculateConfidence_cases)
  note pc = confidence_percent [OF mem]
  have "\<exists>ro' eff' r.
           analyzeAndOptimize c eff ro d = Return (ro', None, eff')
         \<and> CurrentRecommendation (roStatus ro') = Some r
         \<and> stConfidence r = toInt32 (fl (Confidence recommendation * 100))"
    using assms(2)
    by (simp add: analyzeAndOptimize_def assms(1,3) Let_def addConditionTo_def
          split: prod.splits)
  with mem pc show ?thesis by metis
qed

lemma cpu_one_sample:
  "calculateCPURecommendation (series [sample 200 524288000]) (Cpu examplePolicy) =
     Return (\<lparr>Request = NewMilliQuantity 400, Limit = NewMilliQuantity 600\<rparr>,
             Sprintf ''avg=%dm, peak=%dm, target=%dm'' [IntArg 200, IntArg 200, IntArg 400])"
proof (rule calculateCPURecommendation_steps)
  show "cpuLoop (0, 0) (usage (series [sample 200 524288000])) = (200, 200)"
    by (simp add: series_def sample_def MilliValue_def roundUp_def int64_def)
  show "quo 200 (int (length (usage (series [sample 200 524288000])))) = 200"
    by (simp add: series_def quo_def)
  show "toInt64_opt (fdiv (float64 200) (fl (float64 (TargetUtilization (Cpu examplePolicy)) / 100)))
          = 400"
    by (simp add: examplePolicy_def float64_numeral fdiv_def toInt64_opt_def toInt64_def
          trunc_def fl_eqI [of "-1"] fl_eqI [of 8] round_at_def rne_def)
  show "MustParse (Min_str (Cpu examplePolicy)) = Return (1/10)"
    by (simp add: examplePolicy_def MustParse_def digitVal_def)
  show "MustParse (Max_str (Cpu examplePolicy)) = Return (4/5)"
    by (simp add: examplePolicy_def MustParse_def digitVal_def)
  show "(if (400::int) < MilliValue (1/10) then MilliValue (1/10) else 400) = 400"
    by (simp add: MilliValue_def roundUp_def int64_def)
  show "(if (400::int) > MilliValue (4/5) then MilliValue (4/5) else 400) = 400"
    by (simp add: MilliValue_def roundUp_def int64_def)
  show "toInt64 (max (fl (float64 400 * (3/2))) (fl (float64 200 * fl (11/10)))) = 600"
    by (simp add: float64_numeral toInt64_def trunc_def fl_eqI [of 0] fl_eqI [of 7]
          fl_eqI [of 9] round_at_def rne_def)
qed (simp add: series_def)

lemma memory_one_sample:
  "calculateMemoryRecommendation (series [sample 200 524288000]) (Memory examplePolicy) =
     Return (\<lparr>Request = NewQuantity 629145600, Limit = NewQuantity 754974720\<rparr>,
             Sprintf ''avg=%s, peak=%s, buffer=%d%%''
               [QuantityString (NewQuantity 524288000), QuantityString (NewQuantity 524288000),
                IntArg (BufferPercent (Memory examplePolicy))])"
proof (rule calculateMemoryRecommendation_steps)
  show "memLoop (0, 0) (usage (series [sample 200 524288000])) = (524288000, 524288000)"
    by (simp add: series_def sample_def Value_def roundUp_def int64_def)
  show "quo 524288000 (int (length (usage (series [sample 200 524288000])))) = 524288000"
    by (simp add: series_def quo_def)
  show "fl (1 + fl (float64 (BufferPercent (Memory examplePolicy)) / 100))
          = 5404319552844595 / 4503599627370496"
    by (simp add: examplePolicy_def float64_numeral fl_eqI [of "-3"] fl_eqI [of 0]
          round_at_def rne_def)
  show "toInt64 (fl (float64 524288000 * (5404319552844595 / 4503599627370496))) = 629145600"
    by (simp add: float64_numeral toInt64_def trunc_def fl_eqI [of 29] round_at_def rne_def)
  show "toInt64 (fl (float64 629145600 * fl (12/10))) = 754974720"
    by (simp add: float64_numeral toInt64_def trunc_def fl_eqI [of 0] fl_eqI [of 29]
          round_at_def rne_def)
qed (simp add: series_def)

lemma GenerateRecommendation_one_sample:
  "GenerateRecommendation (series [sample 200 524288000]) examplePolicy =
     Return (Inr \<lparr>CPURequest = NewMilliQuantity 400, CPULimit = NewMilliQuantity 600,
                  MemoryRequest = NewQuantity 629145600, MemoryLimit = NewQuantity 754974720,
                  RecReason = Sprintf ''CPU: %s, Memory: %s''
                    [Sprintf ''avg=%dm, peak=%dm, target=%dm''
                       [IntArg 200, IntArg 200, IntArg 400],
                     Sprintf ''avg=%s, peak=%s, buffer=%d%%''
                       [QuantityString (NewQuantity 524288000),
                        QuantityString (NewQuantity 524288000),
                        IntArg (BufferPercent (Memory examplePolicy))]],
                  Confidence = fl (3/10)\<rparr>)"
  by (simp add: GenerateRecommendation_def cpu_one_sample memory_one_sample
        calculateConfidence_def)
     (simp add: series_def)

theorem status_confidence_is_percentage_witness:
  "\<exists>ro' eff' r.
     analyzeAndOptimize (clusterWith (Inr [pod ''api-1'' (1/5) 524288000])) noEffects
       exampleResource exampleDeployment = Return (ro', None, eff')
   \<and> CurrentRecommendation (roStatus ro') = Some r \<and> stConfidence r = 30"
proof -
  have h1: "CollectWorkloadMetrics
              (metricsStore (clusterWith (Inr [pod ''api-1'' (1/5) 524288000])))
              (queries noEffects) exampleDeployment
            = (Inr (series [sample 200 524288000]), 1)"
    by (simp add: clusterWith_def noEffects_def CollectWorkloadMetrics_def pod_def usageOf_def
          series_def sample_def)
  have h2: "usage (series [sample 200 524288000]) \<noteq> []"
    by (simp add: series_def)
  have h3: "GenerateRecommendation (series [sample 200 524288000])
              (Policy (Spec exampleResource))
            = Return (Inr \<lparr>CPURequest = NewMilliQuantity 400, CPULimit = NewMilliQuantity 600,
                  MemoryRequest = NewQuantity 629145600, MemoryLimit = NewQuantity 754974720,
                  RecReason = Sprintf ''CPU: %s, Memory: %s''
                    [Sprintf ''avg=%dm, peak=%dm, target=%dm''
                       [IntArg 200, IntArg 200, IntArg 400],
                     Sprintf ''avg=%s, peak=%s, buffer=%d%%''
                       [QuantityString (NewQuantity 524288000),
                        QuantityString (NewQuantity 524288000),
                        IntArg (BufferPercent (Memory examplePolicy))]],
                  Confidence = fl (3/10)\<rparr>)"
    using GenerateRecommendation_one_sample by (simp add: exampleResource_def)
  from status_confidence_is_percentage [OF h1 h2 h3] show ?thesis
    by (simp add: percent_30) blast
qed

section \<open>CPU recommendation\<close>

lemma quo_nonneg: "0 \<le> a \<Longrightarrow> 0 < b \<Longrightarrow> quo a b = a div b"
  by (cases "a = 0") (simp_all add: quo_def)

lemma cpuLoop_closed_form:
  assumes "\<forall>u \<in> set us. 0 \<le> MilliValue (CPUUsage u)"
    and "0 \<le> peak" and "0 \<le> tot"
    and "tot + (\<Sum>u\<leftarrow>us. MilliValue (CPUUsage u)) < 2 ^ 63"
  shows "cpuLoop (peak, tot) us =
           (Max (insert peak ((\<lambda>u. MilliValue (CPUUsage u)) ` set us)),
            tot + (\<Sum>u\<leftarrow>us. MilliValue (CPUUsage u)))"
  using assms
proof (induction us arbitrary: peak tot)
  case Nil
  then show ?case by simp
next
  case (Cons u us)
  define c where "c = MilliValue (CPUUsage u)"
  have c: "0 \<le> c" using Cons.prems(1) by (simp add: c_def)
  have rest: "0 \<le> (\<Sum>u\<leftarrow>us. MilliValue (CPUUsage u))"
    using Cons.prems(1) by (intro sum_list_nonneg) auto
  have fit: "int64 (tot + c) = tot + c"
    using Cons.prems(3,4) c rest by (intro int64_id) (simp_all add: c_def)
  have IH: "cpuLoop (max peak c, tot + c) us =
      (Max (insert (max peak c) ((\<lambda>u. MilliValue (CPUUsage u)) ` set us)),
       tot + c + (\<Sum>u\<leftarrow>us. MilliValue (CPUUsage u)))"
    using Cons.prems c by (intro Cons.IH) (simp_all add: c_def)
  have m: "(if c > peak then c else peak) = max peak c" by (simp add: max_def)
  have "Max (insert (max peak c) ((\<lambda>u. MilliValue (CPUUsage u)) ` set us))
        = Max (insert peak (insert c ((\<lambda>u. MilliValue (CPUUsage u)) ` set us)))"
    by (cases "us = []") (simp_all add: max.assoc)
  then show ?case
    by (simp add: Let_def c_def [symmetric] fit m IH add.assoc)
qed

lemma fl_eq_0_iff: "fl x = 0 \<longleftrightarrow> x = 0"
proof
  assume z: "fl x = 0"
  show "x = 0"
  proof (rule ccontr)
    assume "x \<noteq> 0"
    then consider "0 < x" | "0 < - x" by linarith
    then show False
    proof cases
      case 1
      then show False using fl_pos_pos [of x] z by simp
    next
      case 2
      then show False using fl_pos_pos [of "- x"] z by (simp add: fl_minus)
    qed
  qed
qed (simp add: fl_0)

lemma utilization_fraction_nonzero:
  "tu \<noteq> 0 \<Longrightarrow> fl (float64 tu / 100) \<noteq> 0"
  by (simp add: fl_eq_0_iff float64_def)

text \<open>
  C4, amended. For a non-empty series of non-negative CPU milli-values whose total fits 64
  bits and a policy with a target utilization other than 0 and parseable bounds that are
  both below \<open>2 ^ 63\<close> thousandths of a core, the analyzer returns: request = the value T
  clamped into [cpuMin, cpuMax], where T is the float64 quotient of avg by
  targetUtilization/100 truncated to an integer and avg is the integer quotient of the total
  by the number of samples; limit = the float64 maximum of request \<times> 1.5 and peak \<times> 1.1,
  truncated to an integer, where peak is the largest sample. All values are in thousandths
  of a core: those of the bounds are \<open>\<lceil>cpuMin * 1000\<rceil>\<close> and \<open>\<lceil>cpuMax * 1000\<rceil>\<close>. The two
  truncations are conversions to \<open>int64\<close> (\<open>toInt64\<close>): a float beyond the range of
  \<open>int64\<close> converts to the smallest \<open>int64\<close>.
\<close>

theorem cpu_recommendation_formula:
  assumes "usage m \<noteq> []"
    and "\<forall>u \<in> set (usage m). 0 \<le> MilliValue (CPUUsage u)"
    and "(\<Sum>u\<leftarrow>usage m. MilliValue (CPUUsage u)) < 2 ^ 63"
    and "TargetUtilization p \<noteq> 0"
    and "MustParse (Min_str p) = Return cpuMin"
    and "MustParse (Max_str p) = Return cpuMax"
    and "cpuMin * 1000 < 2 ^ 63"
    and "cpuMax * 1000 < 2 ^ 63"
  defines "avg \<equiv> (\<Sum>u\<leftarrow>usage m. MilliValue (CPUUsage u)) div int (length (usage m))"
    and "peak \<equiv> Max ((\<lambda>u. MilliValue (CPUUsage u)) ` set (usage m))"
  defines "target \<equiv> toInt64 (fl (float64 avg / fl (float64 (TargetUtilization p) / 100)))"
  defines "request \<equiv> min \<lceil>cpuMax * 1000\<rceil> (max \<lceil>cpuMin * 1000\<rceil> target)"
  shows "\<exists>reason. calculateCPURecommendation m p =
           Return (\<lparr>Request = NewMilliQuantity request,
                    Limit = NewMilliQuantity
                      (toInt64 (max (fl (float64 request * (3/2)))
                                    (fl (float64 peak * fl (11/10)))))\<rparr>, reason)"
proof -
  let ?s = "\<Sum>u\<leftarrow>usage m. MilliValue (CPUUsage u)"
  have loop: "cpuLoop (0, 0) (usage m) =
      (Max (insert 0 ((\<lambda>u. MilliValue (CPUUsage u)) ` set (usage m))), 0 + ?s)"
    using assms(2,3) by (intro cpuLoop_closed_form) simp_all
  have "Max (insert 0 ((\<lambda>u. MilliValue (CPUUsage u)) ` set (usage m))) = peak"
  proof -
    have ne: "(\<lambda>u. MilliValue (CPUUsage u)) ` set (usage m) \<noteq> {}" using assms(1) by simp
    have "0 \<le> Max ((\<lambda>u. MilliValue (CPUUsage u)) ` set (usage m))"
      using assms(1,2) ne by (simp add: Max_ge_iff) (meson last_in_set)
    then show ?thesis using ne by (simp add: peak_def max_def)
  qed
  then have loop': "cpuLoop (0, 0) (usage m) = (peak, ?s)" using loop by simp
  have s0: "0 \<le> ?s" using assms(2) by (intro sum_list_nonneg) auto
  have q: "quo ?s (int (length (usage m))) = avg"
    using s0 assms(1) by (simp add: quo_nonneg avg_def)
  have t: "toInt64_opt (fdiv (float64 avg) (fl (float64 (TargetUtilization p) / 100))) = target"
    using utilization_fraction_nonzero [OF assms(4)]
    by (simp add: fdiv_def toInt64_opt_def target_def)
  have "\<lceil>(of_int (MilliValue cpuMin) :: real)\<rceil> = MilliValue cpuMin" by simp
  then have mn: "MilliValue cpuMin = \<lceil>cpuMin * 1000\<rceil>"
    unfolding MilliValue_MustParse(1) [OF assms(5,7)] by (rule sym)
  have "\<lceil>(of_int (MilliValue cpuMax) :: real)\<rceil> = MilliValue cpuMax" by simp
  then have mx: "MilliValue cpuMax = \<lceil>cpuMax * 1000\<rceil>"
    unfolding MilliValue_MustParse(1) [OF assms(6,8)] by (rule sym)
  have r: "(if (if target < MilliValue cpuMin then MilliValue cpuMin else target)
                > MilliValue cpuMax then MilliValue cpuMax
            else (if target < MilliValue cpuMin then MilliValue cpuMin else target)) = request"
    unfolding mn mx by (simp add: request_def min_def max_def)
  show ?thesis
    using calculateCPURecommendation_steps [OF assms(1) loop' q t assms(5,6) refl r refl]
    by blast
qed

lemma float64_1: "float64 1 = 1"
  using fl_of_int [of 1] by (simp add: float64_def)

theorem cpu_recommendation_formula_witness:
  "\<exists>reason. calculateCPURecommendation
       (series [sample 100 0, sample 200 0, sample 300 0]) (Cpu examplePolicy) =
     Return (\<lparr>Request = NewMilliQuantity 400, Limit = NewMilliQuantity 600\<rparr>, reason)"
proof -
  let ?m = "series [sample 100 0, sample 200 0, sample 300 0]"
  let ?p = "Cpu examplePolicy"
  have h1: "usage ?m \<noteq> []" by (simp add: series_def)
  have h2: "\<forall>u \<in> set (usage ?m). 0 \<le> MilliValue (CPUUsage u)"
    by (simp add: series_def sample_def MilliValue_def roundUp_def int64_def)
  have h3: "(\<Sum>u\<leftarrow>usage ?m. MilliValue (CPUUsage u)) < 2 ^ 63"
    by (simp add: series_def sample_def MilliValue_def roundUp_def int64_def)
  have h4: "TargetUtilization ?p \<noteq> 0" by (simp add: examplePolicy_def)
  have h5: "MustParse (Min_str ?p) = Return (1/10)"
    by (simp add: examplePolicy_def MustParse_def digitVal_def)
  have h6: "MustParse (Max_str ?p) = Return (4/5)"
    by (simp add: examplePolicy_def MustParse_def digitVal_def)
  have avg: "(\<Sum>u\<leftarrow>usage ?m. MilliValue (CPUUsage u)) div int (length (usage ?m)) = 200"
    by (simp add: series_def sample_def MilliValue_def roundUp_def int64_def)
  have peak: "Max ((\<lambda>u. MilliValue (CPUUsage u)) ` set (usage ?m)) = 300"
    by (simp add: series_def sample_def MilliValue_def roundUp_def int64_def)
  have target: "toInt64 (fl (float64 200 / fl (float64 (TargetUtilization ?p) / 100))) = 400"
    by (simp add: examplePolicy_def float64_numeral toInt64_def trunc_def
          fl_eqI [of "-1"] fl_eqI [of 8] round_at_def rne_def)
  have h7: "(1/10 :: real) * 1000 < 2 ^ 63" by simp
  have h8: "(4/5 :: real) * 1000 < 2 ^ 63" by simp
  have request: "min \<lceil>(4/5 :: real) * 1000\<rceil> (max \<lceil>(1/10 :: real) * 1000\<rceil> 400) = 400"
    by simp
  have limit: "toInt64 (max (fl (float64 400 * (3/2))) (fl (float64 300 * fl (11/10)))) = 600"
    by (simp add: float64_numeral toInt64_def trunc_def fl_eqI [of 0] fl_eqI [of 8]
          fl_eqI [of 9] round_at_def rne_def)
  show ?thesis
    using cpu_recommendation_formula [OF h1 h2 h3 h4 h5 h6 h7 h8]
    unfolding avg peak target request limit .
qed

text \<open>
  C4 as stated: request = clamp(avg / (targetUtilization/100)) with avg the arithmetic mean
  of the samples, and limit = max(request \<times> 1.5, peak \<times> 1.1). For the series 1m, 2m with
  target utilization 50 and bounds 1m and 800m these words give the request 3m and the
  limit 4.5m; the analyzer returns 2m and 3m, because its avg is the integer quotient
  3 div 2 = 1 and its results are integers.
\<close>

theorem cpu_request_not_from_arithmetic_mean:
  "calculateCPURecommendation (series [sample 1 0, sample 2 0])
     \<lparr>Min_str = ''1m'', Max_str = ''800m'', TargetUtilization = 50\<rparr>
   = Return (\<lparr>Request = NewMilliQuantity 2, Limit = NewMilliQuantity 3\<rparr>,
             Sprintf ''avg=%dm, peak=%dm, target=%dm'' [IntArg 1, IntArg 2, IntArg 2])
   \<and> spec_cpuRequest [1, 2] 50 1 800 = 3 \<and> spec_cpuLimit 3 2 = 9/2"
proof -
  let ?m = "series [sample 1 0, sample 2 0]"
  let ?p = "\<lparr>Min_str = ''1m'', Max_str = ''800m'', TargetUtilization = 50\<rparr>"
  have "calculateCPURecommendation ?m ?p
        = Return (\<lparr>Request = NewMilliQuantity 2, Limit = NewMilliQuantity 3\<rparr>,
                  Sprintf ''avg=%dm, peak=%dm, target=%dm'' [IntArg 1, IntArg 2, IntArg 2])"
  proof (rule calculateCPURecommendation_steps)
    show "usage ?m \<noteq> []" by (simp add: series_def)
    show "cpuLoop (0, 0) (usage ?m) = (2, 3)"
      by (simp add: series_def sample_def MilliValue_def roundUp_def int64_def)
    show "quo 3 (int (length (usage ?m))) = 1" by (simp add: series_def quo_def)
    show "toInt64_opt (fdiv (float64 1) (fl (float64 (TargetUtilization ?p) / 100))) = 2"
      by (simp add: float64_numeral float64_1 fdiv_def toInt64_opt_def toInt64_def
            trunc_def fl_eqI [of "-1"] fl_eqI [of 1] round_at_def rne_def)
    show "MustParse (Min_str ?p) = Return (1/1000)" by (simp add: MustParse_def digitVal_def)
    show "MustParse (Max_str ?p) = Return (4/5)" by (simp add: MustParse_def digitVal_def)
    show "(if (2::int) < MilliValue (1/1000) then MilliValue (1/1000) else 2) = 2"
      by (simp add: MilliValue_def roundUp_def int64_def)
    show "(if (2::int) > MilliValue (4/5) then MilliValue (4/5) else 2) = 2"
      by (simp add: MilliValue_def roundUp_def int64_def)
    show "toInt64 (max (fl (float64 2 * (3/2))) (fl (float64 2 * fl (11/10)))) = 3"
      by (simp add: float64_numeral toInt64_def trunc_def fl_eqI [of 0] fl_eqI [of 1]
            round_at_def rne_def)
  qed
  moreover have "spec_cpuRequest [1, 2] 50 1 800 = 3"
    by (simp add: spec_cpuRequest_def)
  moreover have "spec_cpuLimit 3 2 = 9/2"
    by (simp add: spec_cpuLimit_def)
  ultimately show ?thesis by simp
qed

section \<open>Memory recommendation\<close>

lemma memLoop_peak:
  "fst (memLoop (peak, tot) us) = Max (insert peak ((\<lambda>u. Value (MemoryUsage u)) ` set us))"
proof (induction us arbitrary: peak tot)
  case Nil
  then show ?case by simp
next
  case (Cons u us)
  define c where "c = Value (MemoryUsage u)"
  have m: "(if c > peak then c else peak) = max peak c" by (simp add: max_def)
  have "Max (insert (max peak c) ((\<lambda>u. Value (MemoryUsage u)) ` set us))
        = Max (insert peak (insert c ((\<lambda>u. Value (MemoryUsage u)) ` set us)))"
    by (cases "us = []") (simp_all add: max.assoc)
  then show ?case
    by (simp add: Let_def c_def [symmetric] m Cons.IH)
qed

text \<open>
  C7, amended. For a non-empty series the analyzer returns: request = the float64 product
  of peak and 1 + bufferPercent/100, truncated to an integer number of bytes, and limit =
  the float64 product of that request and 1.2, truncated likewise; peak is the largest
  observed memory value (from 0). No bound of the policy enters: the function reads
  \<open>BufferPercent\<close> only.
\<close>

theorem memory_recommendation_formula:
  fixes m :: WorkloadMetrics and p :: MemoryPolicy
  assumes "usage m \<noteq> []"
  defines "peak \<equiv> Max (insert 0 ((\<lambda>u. Value (MemoryUsage u)) ` set (usage m)))"
  defines "request \<equiv>
    toInt64 (fl (float64 peak * fl (1 + fl (float64 (BufferPercent p) / 100))))"
  shows "\<exists>reason. calculateMemoryRecommendation m p =
           Return (\<lparr>Request = NewQuantity request,
                    Limit = NewQuantity (toInt64 (fl (float64 request * fl (12/10))))\<rparr>,
                   reason)"
proof -
  obtain pk tot where loop: "memLoop (0, 0) (usage m) = (pk, tot)"
    by (cases "memLoop (0, 0) (usage m)")
  have "pk = peak" using memLoop_peak [of 0 0 "usage m"] by (simp add: loop peak_def)
  then have loop': "memLoop (0, 0) (usage m) = (peak, tot)" using loop by simp
  show ?thesis
    using calculateMemoryRecommendation_steps [OF assms(1) loop' refl refl refl refl]
    unfolding request_def by blast
qed

theorem memory_recommendation_formula_witness:
  "\<exists>reason. calculateMemoryRecommendation
       (series [sample 100 419430400, sample 200 524288000, sample 300 471859200])
       (Memory examplePolicy) =
     Return (\<lparr>Request = NewQuantity 629145600, Limit = NewQuantity 754974720\<rparr>, reason)"
proof -
  let ?m = "series [sample 100 419430400, sample 200 524288000, sample 300 471859200]"
  let ?p = "Memory examplePolicy"
  have h1: "usage ?m \<noteq> []" by (simp add: series_def)
  have peak: "Max (insert 0 ((\<lambda>u. Value (MemoryUsage u)) ` set (usage ?m))) = 524288000"
    by (simp add: series_def sample_def Value_def roundUp_def int64_def)
  have request: "toInt64 (fl (float64 524288000 * fl (1 + fl (float64 (BufferPercent ?p) / 100))))
                 = 629145600"
    by (simp add: examplePolicy_def float64_numeral toInt64_def trunc_def fl_eqI [of "-3"]
          fl_eqI [of 0] fl_eqI [of 29] round_at_def rne_def)
  have limit: "toInt64 (fl (float64 629145600 * fl (12/10))) = 754974720"
    by (simp add: float64_numeral toInt64_def trunc_def fl_eqI [of 0] fl_eqI [of 29]
          round_at_def rne_def)
  show ?thesis
    using memory_recommendation_formula [OF h1, of ?p]
    unfolding peak request limit .
qed

text \<open>
  C7 as stated: request = peak \<times> (1 + bufferPercent/100) and limit = request \<times> 1.2. For a
  peak of 100 bytes and bufferPercent = 13 these words give 113 bytes and 135.6 bytes; the
  analyzer returns 112 and 134: in float64 1 + 13/100 is just below 1.13, the product just
  below 113, and the conversions truncate.
\<close>

theorem memory_request_below_buffer_formula:
  "calculateMemoryRecommendation (series [sample 0 100]) \<lparr>BufferPercent = 13\<rparr>
   = Return (\<lparr>Request = NewQuantity 112, Limit = NewQuantity 134\<rparr>,
             Sprintf ''avg=%s, peak=%s, buffer=%d%%''
               [QuantityString (NewQuantity 100), QuantityString (NewQuantity 100), IntArg 13])
   \<and> spec_memoryRequest 100 13 = 113 \<and> spec_memoryLimit 113 = 678/5"
proof -
  let ?m = "series [sample 0 100]"
  let ?p = "\<lparr>BufferPercent = 13\<rparr>"
  have "calculateMemoryRecommendation ?m ?p
        = Return (\<lparr>Request = NewQuantity 112, Limit = NewQuantity 134\<rparr>,
             Sprintf ''avg=%s, peak=%s, buffer=%d%%''
               [QuantityString (NewQuantity 100), QuantityString (NewQuantity 100),
                IntArg (BufferPercent ?p)])"
  proof (rule calculateMemoryRecommendation_steps)
    show "usage ?m \<noteq> []" by (simp add: series_def)
    show "memLoop (0, 0) (usage ?m) = (100, 100)"
      by (simp add: series_def sample_def Value_def roundUp_def int64_def)
    show "quo 100 (int (length (usage ?m))) = 100" by (simp add: series_def quo_def)
    show "fl (1 + fl (float64 (BufferPercent ?p) / 100)) = 1272266894732165 / 1125899906842624"
      by (simp add: float64_numeral fl_eqI [of "-3"] fl_eqI [of 0] round_at_def rne_def)
    show "toInt64 (fl (float64 100 * (1272266894732165 / 1125899906842624))) = 112"
      by (simp add: float64_numeral toInt64_def trunc_def fl_eqI [of 6] round_at_def rne_def)
    show "toInt64 (fl (float64 112 * fl (12/10))) = 134"
      by (simp add: float64_numeral toInt64_def trunc_def fl_eqI [of 0] fl_eqI [of 7]
            round_at_def rne_def)
  qed
  moreover have "spec_memoryRequest 100 13 = 113" by (simp add: spec_memoryRequest_def)
  moreover have "spec_memoryLimit 113 = 678/5" by (simp add: spec_memoryLimit_def)
  ultimately show ?thesis by simp
qed

section \<open>Limits cover requests\<close>

lemma trunc_of_int: "trunc (of_int k) = k"
  by (simp add: trunc_def)

lemma trunc_mono: "x \<le> y \<Longrightarrow> trunc x \<le> trunc y"
proof -
  assume xy: "x \<le> y"
  have a: "\<lfloor>x\<rfloor> \<le> \<lfloor>y\<rfloor>" and b: "\<lceil>x\<rceil> \<le> \<lceil>y\<rceil>"
    using xy by (simp_all add: floor_mono ceiling_mono)
  have c: "\<lfloor>x\<rfloor> \<le> \<lceil>x\<rceil>" "\<lfloor>y\<rfloor> \<le> \<lceil>y\<rceil>" by (simp_all add: floor_le_ceiling)
  show ?thesis
  proof (cases "0 \<le> x")
    case True
    then show ?thesis using xy a by (simp add: trunc_def)
  next
    case False
    then have x0: "\<lceil>x\<rceil> \<le> 0" by (simp add: ceiling_le_iff)
    show ?thesis
    proof (cases "0 \<le> y")
      case True
      then have y0: "0 \<le> \<lfloor>y\<rfloor>" by simp
      have "trunc x = \<lceil>x\<rceil>" "trunc y = \<lfloor>y\<rfloor>"
        using False True by (simp_all add: trunc_def)
      then show ?thesis using x0 y0 by linarith
    next
      case y: False
      then show ?thesis using b False by (simp add: trunc_def)
    qed
  qed
qed

lemma toInt64_between:
  assumes "of_int a \<le> x" "x \<le> of_int b" "- (2 ^ 63) \<le> a" "b < 2 ^ 63"
  shows "a \<le> toInt64 x" and "toInt64 x \<le> b"
proof -
  have "trunc (of_int a) \<le> trunc x" "trunc x \<le> trunc (of_int b)"
    using assms(1,2) by (simp_all only: trunc_mono)
  then have t: "a \<le> trunc x" "trunc x \<le> b" by (simp_all only: trunc_of_int)
  then have "toInt64 x = trunc x" using assms(3,4) by (simp add: toInt64_def Let_def)
  then show "a \<le> toInt64 x" and "toInt64 x \<le> b" using t by simp_all
qed

lemma fl_between:
  assumes "of_int a \<le> x" "x \<le> of_int b" "\<bar>a\<bar> \<le> 2 ^ 53" "\<bar>b\<bar> \<le> 2 ^ 53"
  shows "of_int a \<le> fl x" and "fl x \<le> of_int b"
proof -
  have "fl (of_int a) \<le> fl x" "fl x \<le> fl (of_int b)"
    using assms(1,2) by (simp_all only: fl_mono)
  then show "of_int a \<le> fl x" and "fl x \<le> of_int b"
    by (simp_all only: fl_of_int [OF assms(3)] fl_of_int [OF assms(4)])
qed

lemma float64_exact: "\<bar>k\<bar> \<le> 2 ^ 53 \<Longrightarrow> float64 k = of_int k"
  by (simp add: float64_def fl_of_int)

lemma cpuLoop_peak:
  "fst (cpuLoop (peak, tot) us) = Max (insert peak ((\<lambda>u. MilliValue (CPUUsage u)) ` set us))"
proof (induction us arbitrary: peak tot)
  case Nil
  then show ?case by simp
next
  case (Cons u us)
  define c where "c = MilliValue (CPUUsage u)"
  have m: "(if c > peak then c else peak) = max peak c" by (simp add: max_def)
  have "Max (insert (max peak c) ((\<lambda>u. MilliValue (CPUUsage u)) ` set us))
        = Max (insert peak (insert c ((\<lambda>u. MilliValue (CPUUsage u)) ` set us)))"
    by (cases "us = []") (simp_all add: max.assoc)
  then show ?case
    by (simp add: Let_def c_def [symmetric] m Cons.IH)
qed

lemma scaled_up_covers:
  assumes "0 \<le> k" "k \<le> 2 ^ 52" "1 \<le> c" "c \<le> 2"
  shows "of_int k \<le> fl (of_int k * c)" and "fl (of_int k * c) \<le> of_int (2 * k)"
proof -
  have lo: "of_int k \<le> of_int k * c"
    using assms(1,3) by (simp add: mult_le_cancel_left1)
  have "(of_int k :: real) * c \<le> of_int k * 2"
    using assms(1,4) by (intro mult_left_mono) simp_all
  then have hi: "of_int k * c \<le> of_int (2 * k)" by simp
  have a: "\<bar>k\<bar> \<le> 2 ^ 53" "\<bar>2 * k\<bar> \<le> 2 ^ 53" using assms(1,2) by simp_all
  show "of_int k \<le> fl (of_int k * c)" and "fl (of_int k * c) \<le> of_int (2 * k)"
    using fl_between [OF lo hi a] by simp_all
qed

lemma cpu_limit_covers_request:
  assumes "usage m \<noteq> []"
    and "\<forall>u \<in> set (usage m). MilliValue (CPUUsage u) \<le> 2 ^ 52"
    and "MustParse (Min_str p) = Return lo"
    and "MustParse (Max_str p) = Return hi"
    and "MilliValue hi \<le> 2 ^ 52"
  shows "\<exists>r reason. calculateCPURecommendation m p = Return (r, reason) \<and> Request r \<le> Limit r"
proof -
  obtain peak tot where loop: "cpuLoop (0, 0) (usage m) = (peak, tot)"
    by (cases "cpuLoop (0, 0) (usage m)")
  have pk: "peak = Max (insert 0 ((\<lambda>u. MilliValue (CPUUsage u)) ` set (usage m)))"
    using cpuLoop_peak [of 0 0 "usage m"] by (simp add: loop)
  have peak: "0 \<le> peak" "peak \<le> 2 ^ 52"
    using assms(2) by (simp_all add: pk)
  define target where "target = toInt64_opt
     (fdiv (float64 (quo tot (int (length (usage m))))) (fl (float64 (TargetUtilization p) / 100)))"
  define t1 where "t1 = (if target < MilliValue lo then MilliValue lo else target)"
  define t2 where "t2 = (if t1 > MilliValue hi then MilliValue hi else t1)"
  define lmt where "lmt = toInt64 (max (fl (float64 t2 * (3/2))) (fl (float64 peak * fl (11/10))))"
  have t2u: "t2 \<le> 2 ^ 52"
    using assms(5) by (auto simp: t2_def)
  have fp: "float64 peak = of_int peak" using peak by (intro float64_exact) simp
  have c: "1 \<le> fl (11/10)" "fl (11/10) \<le> 2"
    using fl_between [of 1 "11/10" 2] by simp_all
  have B: "of_int peak \<le> fl (of_int peak * fl (11/10))"
          "fl (of_int peak * fl (11/10)) \<le> of_int (2 * peak)"
    using scaled_up_covers [OF peak c] .
  have Bu: "fl (of_int peak * fl (11/10)) \<le> of_int (2 ^ 53)"
  proof -
    have "(of_int (2 * peak) :: real) \<le> of_int (2 ^ 53)"
      using peak(2) by (simp only: of_int_le_iff) simp
    then show ?thesis using B(2) by linarith
  qed
  have B0: "of_int 0 \<le> fl (of_int peak * fl (11/10))"
    using B(1) peak(1) by simp
  have "t2 \<le> lmt"
  proof (cases "0 \<le> t2")
    case True
    have t2: "0 \<le> t2" "t2 \<le> 2 ^ 52" using True t2u by simp_all
    have f2: "float64 t2 = of_int t2" using t2 by (intro float64_exact) simp
    have A: "of_int t2 \<le> fl (of_int t2 * (3/2))" "fl (of_int t2 * (3/2)) \<le> of_int (2 * t2)"
      using scaled_up_covers [OF t2, of "3/2"] by simp_all
    have "of_int t2 \<le> max (fl (float64 t2 * (3/2))) (fl (float64 peak * fl (11/10)))"
      using A(1) by (simp add: f2 le_max_iff_disj)
    moreover have "max (fl (float64 t2 * (3/2))) (fl (float64 peak * fl (11/10)))
                   \<le> of_int (2 ^ 53)"
    proof -
      have "(of_int (2 * t2) :: real) \<le> of_int (2 ^ 53)"
        using t2(2) by (simp only: of_int_le_iff) simp
      with A(2) have "fl (of_int t2 * (3/2)) \<le> of_int (2 ^ 53)" by (rule order_trans)
      then show ?thesis using Bu unfolding f2 fp by (simp only: max.bounded_iff simp_thms)
    qed
    ultimately show ?thesis
      unfolding lmt_def by (intro toInt64_between(1) [where b = "2 ^ 53"]) (use t2 in simp_all)
  next
    case False
    have "fl (of_int t2) \<le> fl 0" using False by (intro fl_mono) simp
    then have n: "float64 t2 \<le> 0" by (simp add: float64_def fl_0)
    have "fl (float64 t2 * (3/2)) \<le> fl 0" using n by (intro fl_mono) simp
    then have A: "fl (float64 t2 * (3/2)) \<le> 0" by (simp add: fl_0)
    have "of_int 0 \<le> max (fl (float64 t2 * (3/2))) (fl (float64 peak * fl (11/10)))"
      using B0 unfolding fp by (simp only: le_max_iff_disj) simp
    moreover have "max (fl (float64 t2 * (3/2))) (fl (float64 peak * fl (11/10)))
                   \<le> of_int (2 ^ 53)"
      using A Bu unfolding fp by (simp only: max.bounded_iff) simp
    ultimately have "0 \<le> lmt"
      unfolding lmt_def by (intro toInt64_between(1) [where b = "2 ^ 53"]) simp_all
    then show ?thesis using False by simp
  qed
  then have "NewMilliQuantity t2 \<le> NewMilliQuantity lmt"
    by (simp add: NewMilliQuantity_def divide_right_mono)
  moreover have "calculateCPURecommendation m p =
     Return (\<lparr>Request = NewMilliQuantity t2, Limit = NewMilliQuantity lmt\<rparr>,
             Sprintf ''avg=%dm, peak=%dm, target=%dm''
               [IntArg (quo tot (int (length (usage m)))), IntArg peak, IntArg t2])"
    using calculateCPURecommendation_steps [OF assms(1) loop refl refl assms(3,4) refl refl refl]
    unfolding lmt_def t2_def t1_def target_def .
  ultimately show ?thesis by simp
qed

lemma memory_limit_covers_request:
  assumes "usage m \<noteq> []"
    and "\<forall>u \<in> set (usage m). Value (MemoryUsage u) \<le> 2 ^ 51"
    and "0 \<le> BufferPercent p" and "BufferPercent p \<le> 100"
  shows "\<exists>r reason. calculateMemoryRecommendation m p = Return (r, reason)
           \<and> Request r \<le> Limit r"
proof -
  obtain peak tot where loop: "memLoop (0, 0) (usage m) = (peak, tot)"
    by (cases "memLoop (0, 0) (usage m)")
  have pk: "peak = Max (insert 0 ((\<lambda>u. Value (MemoryUsage u)) ` set (usage m)))"
    using memLoop_peak [of 0 0 "usage m"] by (simp add: loop)
  have peak: "0 \<le> peak" "peak \<le> 2 ^ 51"
    using assms(2) by (simp_all add: pk)
  define mult where "mult = fl (1 + fl (float64 (BufferPercent p) / 100))"
  define req where "req = toInt64 (fl (float64 peak * mult))"
  define lmt where "lmt = toInt64 (fl (float64 req * fl (12/10)))"
  have fb: "float64 (BufferPercent p) = of_int (BufferPercent p)"
    using assms(3,4) by (intro float64_exact) simp
  have frac: "0 \<le> fl (float64 (BufferPercent p) / 100)" "fl (float64 (BufferPercent p) / 100) \<le> 1"
    using fl_between [of 0 "float64 (BufferPercent p) / 100" 1] assms(3,4)
    by (simp_all add: fb)
  have mult: "1 \<le> mult" "mult \<le> 2"
    using fl_between [of 1 "1 + fl (float64 (BufferPercent p) / 100)" 2] frac
    by (simp_all add: mult_def)
  have fp: "float64 peak = of_int peak" using peak by (intro float64_exact) simp
  have p52: "peak \<le> 2 ^ 52" using peak(2) by simp
  have R: "of_int peak \<le> fl (float64 peak * mult)" "fl (float64 peak * mult) \<le> of_int (2 * peak)"
    using scaled_up_covers [OF peak(1) p52 mult] by (simp_all add: fp)
  have req: "peak \<le> req" "req \<le> 2 * peak"
    unfolding req_def using peak by (intro toInt64_between [OF R]; simp)+
  have r52: "0 \<le> req" "req \<le> 2 ^ 52" using req peak by simp_all
  have fr: "float64 req = of_int req" using r52 by (intro float64_exact) simp
  have c: "1 \<le> fl (12/10)" "fl (12/10) \<le> 2"
    using fl_between [of 1 "12/10" 2] by simp_all
  have L: "of_int req \<le> fl (float64 req * fl (12/10))"
          "fl (float64 req * fl (12/10)) \<le> of_int (2 * req)"
    using scaled_up_covers [OF r52 c] by (simp_all add: fr)
  have "req \<le> lmt"
    unfolding lmt_def using r52 by (intro toInt64_between(1) [OF L]; simp)
  then have "NewQuantity req \<le> NewQuantity lmt" by (simp add: NewQuantity_def)
  moreover have "calculateMemoryRecommendation m p =
     Return (\<lparr>Request = NewQuantity req, Limit = NewQuantity lmt\<rparr>,
             Sprintf ''avg=%s, peak=%s, buffer=%d%%''
               [QuantityString (NewQuantity (quo tot (int (length (usage m))))),
                QuantityString (NewQuantity peak), IntArg (BufferPercent p)])"
    using calculateMemoryRecommendation_steps [OF assms(1) loop refl refl refl refl]
    unfolding lmt_def req_def mult_def .
  ultimately show ?thesis by simp
qed

text \<open>
  C5, amended. For a non-empty series whose CPU milli-values are at most \<open>2 ^ 52\<close> and
  whose memory values are at most \<open>2 ^ 51\<close> bytes, and a policy that the schema admits
  (parseable bounds, bufferPercent from 0 to 100) whose CPU maximum is at most \<open>2 ^ 52\<close>
  thousandths of a core, the analyzer returns a recommendation with cpuLimit \<ge> cpuRequest
  and memoryLimit \<ge> memoryRequest, truncations included. In that range float64 holds the
  integers exactly and the conversions back to \<open>int64\<close> stay in range. Nothing is asked of
  the target utilization, of cpuMin or of the order of the bounds.
\<close>

theorem limits_cover_requests:
  assumes "usage m \<noteq> []"
    and "\<forall>u \<in> set (usage m).
           MilliValue (CPUUsage u) \<le> 2 ^ 52 \<and> Value (MemoryUsage u) \<le> 2 ^ 51"
    and "MustParse (Min_str (Cpu p)) = Return cpuMin"
    and "MustParse (Max_str (Cpu p)) = Return cpuMax"
    and "cpuMax * 1000 \<le> 2 ^ 52"
    and "0 \<le> BufferPercent (Memory p)" and "BufferPercent (Memory p) \<le> 100"
  shows "\<exists>r. GenerateRecommendation m p = Return (Inr r)
           \<and> CPURequest r \<le> CPULimit r \<and> MemoryRequest r \<le> MemoryLimit r"
proof -
  from assms(2) have c: "\<forall>u \<in> set (usage m). MilliValue (CPUUsage u) \<le> 2 ^ 52"
    and v: "\<forall>u \<in> set (usage m). Value (MemoryUsage u) \<le> 2 ^ 51" by simp_all
  have fit: "cpuMax * 1000 < 2 ^ 63" using assms(5) by simp
  have "(of_int (MilliValue cpuMax) :: real) \<le> of_int (2 ^ 52)"
    unfolding MilliValue_MustParse(1) [OF assms(4) fit] using assms(5) by simp
  then have mx: "MilliValue cpuMax \<le> 2 ^ 52" by (simp only: of_int_le_iff)
  obtain cr creason where cpu: "calculateCPURecommendation m (Cpu p) = Return (cr, creason)"
    "Request cr \<le> Limit cr"
    using cpu_limit_covers_request [OF assms(1) c assms(3,4) mx] by blast
  obtain mr mreason where
    mem: "calculateMemoryRecommendation m (Memory p) = Return (mr, mreason)"
    "Request mr \<le> Limit mr"
    using memory_limit_covers_request [OF assms(1) v assms(6,7)] by blast
  show ?thesis using assms(1) cpu mem by (simp add: GenerateRecommendation_def)
qed

theorem limits_cover_requests_witness:
  "\<exists>r. GenerateRecommendation (series [sample 200 524288000]) examplePolicy = Return (Inr r)
       \<and> CPURequest r \<le> CPULimit r \<and> MemoryRequest r \<le> MemoryLimit r
       \<and> CPURequest r = 2/5 \<and> CPULimit r = 3/5
       \<and> MemoryRequest r = 629145600 \<and> MemoryLimit r = 754974720"
proof -
  have h1: "usage (series [sample 200 524288000]) \<noteq> []" by (simp add: series_def)
  have h2: "\<forall>u \<in> set (usage (series [sample 200 524288000])).
              MilliValue (CPUUsage u) \<le> 2 ^ 52 \<and> Value (MemoryUsage u) \<le> 2 ^ 51"
    by (simp add: series_def sample_def MilliValue_def Value_def roundUp_def int64_def)
  have h3: "MustParse (Min_str (Cpu examplePolicy)) = Return (1/10)"
    by (simp add: examplePolicy_def MustParse_def digitVal_def)
  have h4: "MustParse (Max_str (Cpu examplePolicy)) = Return (4/5)"
    by (simp add: examplePolicy_def MustParse_def digitVal_def)
  have h5: "(4/5 :: real) * 1000 \<le> 2 ^ 52" by simp
  have h6: "0 \<le> BufferPercent (Memory examplePolicy)" by (simp add: examplePolicy_def)
  have h7: "BufferPercent (Memory examplePolicy) \<le> 100" by (simp add: examplePolicy_def)
  from limits_cover_requests [OF h1 h2 h3 h4 h5 h6 h7] show ?thesis
    by (simp add: GenerateRecommendation_one_sample NewMilliQuantity_def NewQuantity_def)
qed

text \<open>
  C5 as stated: cpuLimit \<ge> cpuRequest for every non-empty series and every policy. With
  both CPU bounds at 7000000000000000000m, which the schema admits, the request is
  7000000000000000000m; 1.5 times that is beyond \<open>int64\<close>, the conversion of the float
  gives the smallest \<open>int64\<close>, and the limit -9223372036854775808m is below the request.
\<close>

theorem cpu_limit_below_request:
  "MustParse ''7000000000000000000m'' = Return 7000000000000000
   \<and> GenerateRecommendation (series [sample 200 524288000])
         \<lparr>Cpu = \<lparr>Min_str = ''7000000000000000000m'', Max_str = ''7000000000000000000m'',
                 TargetUtilization = 50\<rparr>,
          Memory = \<lparr>BufferPercent = 20\<rparr>\<rparr>
       = Return (Inr \<lparr>CPURequest = NewMilliQuantity 7000000000000000000,
                      CPULimit = NewMilliQuantity (- 9223372036854775808),
                      MemoryRequest = NewQuantity 629145600,
                      MemoryLimit = NewQuantity 754974720,
                      RecReason = Sprintf ''CPU: %s, Memory: %s''
                        [Sprintf ''avg=%dm, peak=%dm, target=%dm''
                           [IntArg 200, IntArg 200, IntArg 7000000000000000000],
                         Sprintf ''avg=%s, peak=%s, buffer=%d%%''
                           [QuantityString (NewQuantity 524288000),
                            QuantityString (NewQuantity 524288000), IntArg 20]],
                      Confidence = fl (3/10)\<rparr>)
   \<and> NewMilliQuantity (- 9223372036854775808) < NewMilliQuantity 7000000000000000000"
proof -
  let ?m = "series [sample 200 524288000]"
  let ?c = "\<lparr>Min_str = ''7000000000000000000m'', Max_str = ''7000000000000000000m'',
             TargetUtilization = 50\<rparr>"
  have b: "MustParse ''7000000000000000000m'' = Return 7000000000000000"
    by (simp add: MustParse_def digitVal_def)
  have cpu: "calculateCPURecommendation ?m ?c
        = Return (\<lparr>Request = NewMilliQuantity 7000000000000000000,
                   Limit = NewMilliQuantity (- 9223372036854775808)\<rparr>,
                  Sprintf ''avg=%dm, peak=%dm, target=%dm''
                    [IntArg 200, IntArg 200, IntArg 7000000000000000000])"
  proof (rule calculateCPURecommendation_steps)
    show "usage ?m \<noteq> []" by (simp add: series_def)
    show "cpuLoop (0, 0) (usage ?m) = (200, 200)"
      by (simp add: series_def sample_def MilliValue_def roundUp_def int64_def)
    show "quo 200 (int (length (usage ?m))) = 200" by (simp add: series_def quo_def)
    show "toInt64_opt (fdiv (float64 200) (fl (float64 (TargetUtilization ?c) / 100))) = 400"
      by (simp add: float64_numeral fdiv_def toInt64_opt_def toInt64_def
            trunc_def fl_eqI [of "-1"] fl_eqI [of 8] round_at_def rne_def)
    show "MustParse (Min_str ?c) = Return 7000000000000000" using b by simp
    show "MustParse (Max_str ?c) = Return 7000000000000000" using b by simp
    show "(if (400::int) < MilliValue 7000000000000000 then MilliValue 7000000000000000
           else 400) = 7000000000000000000"
      by (simp add: MilliValue_def roundUp_def int64_def)
    show "(if (7000000000000000000::int) > MilliValue 7000000000000000
           then MilliValue 7000000000000000 else 7000000000000000000) = 7000000000000000000"
      by (simp add: MilliValue_def roundUp_def int64_def)
    show "toInt64 (max (fl (float64 7000000000000000000 * (3/2)))
                       (fl (float64 200 * fl (11/10)))) = - 9223372036854775808"
      by (simp add: float64_numeral float64_def toInt64_def trunc_def fl_eqI [of 0]
            fl_eqI [of 7] fl_eqI [of 62] fl_eqI [of 63] round_at_def rne_def)
  qed
  have mem: "calculateMemoryRecommendation ?m \<lparr>BufferPercent = 20\<rparr> =
     Return (\<lparr>Request = NewQuantity 629145600, Limit = NewQuantity 754974720\<rparr>,
             Sprintf ''avg=%s, peak=%s, buffer=%d%%''
               [QuantityString (NewQuantity 524288000), QuantityString (NewQuantity 524288000),
                IntArg 20])"
    using memory_one_sample by (simp add: examplePolicy_def)
  have "GenerateRecommendation ?m \<lparr>Cpu = ?c, Memory = \<lparr>BufferPercent = 20\<rparr>\<rparr>
       = Return (Inr \<lparr>CPURequest = NewMilliQuantity 7000000000000000000,
                      CPULimit = NewMilliQuantity (- 9223372036854775808),
                      MemoryRequest = NewQuantity 629145600,
                      MemoryLimit = NewQuantity 754974720,
                      RecReason = Sprintf ''CPU: %s, Memory: %s''
                        [Sprintf ''avg=%dm, peak=%dm, target=%dm''
                           [IntArg 200, IntArg 200, IntArg 7000000000000000000],
                         Sprintf ''avg=%s, peak=%s, buffer=%d%%''
                           [QuantityString (NewQuantity 524288000),
                            QuantityString (NewQuantity 524288000), IntArg 20]],
                      Confidence = fl (3/10)\<rparr>)"
    by (simp add: GenerateRecommendation_def cpu mem calculateConfidence_def)
       (simp add: series_def)
  moreover have "NewMilliQuantity (- 9223372036854775808) < NewMilliQuantity 7000000000000000000"
    by (simp add: NewMilliQuantity_def)
  ultimately show ?thesis using b by simp
qed

section \<open>Confidence tiers\<close>

lemma sum_list_le_length_times:
  fixes f :: "'a \<Rightarrow> int"
  shows "\<forall>x \<in> set xs. f x \<le> B \<Longrightarrow> (\<Sum>x\<leftarrow>xs. f x) \<le> int (length xs) * B"
  by (induction xs) (auto simp: algebra_simps)

lemma of_int_sum_list_map:
  "(\<Sum>x\<leftarrow>xs. (of_int (f x) :: real)) = of_int (\<Sum>x\<leftarrow>xs. f x)"
  by (induction xs) simp_all

lemma fsum_exact:
  assumes "\<forall>c \<in> set ms. 0 \<le> c" "0 \<le> s" "s + sum_list ms \<le> 2 ^ 53"
  shows "fsum (of_int s) (map of_int ms) = of_int (s + sum_list ms)"
  using assms
proof (induction ms arbitrary: s)
  case Nil
  then show ?case by simp
next
  case (Cons c ms)
  have rest: "0 \<le> sum_list ms" using Cons.prems(1) by (intro sum_list_nonneg) simp
  have c: "0 \<le> c" using Cons.prems(1) by simp
  have "\<bar>s + c\<bar> \<le> 2 ^ 53" using Cons.prems(2,3) rest c by simp
  then have step: "fl (of_int s + of_int c) = of_int (s + c)"
    using fl_of_int [of "s + c"] by simp
  have "fsum (of_int (s + c)) (map of_int ms) = of_int (s + c + sum_list ms)"
    using Cons.prems c by (intro Cons.IH) simp_all
  then show ?case by (simp add: step add.assoc)
qed

lemma fsumsq_exact:
  assumes "\<forall>c \<in> set ms. \<bar>c - k\<bar> \<le> 2 ^ 20" "0 \<le> a"
    and "a + (\<Sum>c\<leftarrow>ms. (c - k)\<^sup>2) \<le> 2 ^ 53"
  shows "fsumsq (of_int k) (of_int a) (map of_int ms) = of_int (a + (\<Sum>c\<leftarrow>ms. (c - k)\<^sup>2))"
  using assms
proof (induction ms arbitrary: a)
  case Nil
  then show ?case by simp
next
  case (Cons c ms)
  define d where "d = c - k"
  have d: "\<bar>d\<bar> \<le> 2 ^ 20" using Cons.prems(1) by (simp add: d_def)
  have rest: "0 \<le> (\<Sum>c\<leftarrow>ms. (c - k)\<^sup>2)" by (intro sum_list_nonneg) auto
  have dev: "fl (of_int c - of_int k) = of_int d"
    using fl_of_int [of d] d by (simp add: d_def)
  have "d\<^sup>2 = \<bar>d\<bar> * \<bar>d\<bar>" by (simp add: power2_eq_square)
  also have "\<dots> \<le> 2 ^ 20 * 2 ^ 20" using d by (intro mult_mono) simp_all
  finally have d2: "d\<^sup>2 \<le> 2 ^ 40" by simp
  have "\<bar>d\<^sup>2\<bar> \<le> 2 ^ 53" using d2 by simp
  then have sq: "Pow2 (of_int d) = of_int (d\<^sup>2)"
    using fl_of_int [of "d\<^sup>2"] by (simp add: Pow2_def power2_eq_square)
  have "\<bar>a + d\<^sup>2\<bar> \<le> 2 ^ 53" using Cons.prems(2,3) rest by (simp add: d_def)
  then have acc: "fl (of_int a + of_int (d\<^sup>2)) = of_int (a + d\<^sup>2)"
    using fl_of_int [of "a + d\<^sup>2"] by simp
  have IH: "fsumsq (of_int k) (of_int (a + d\<^sup>2)) (map of_int ms)
        = of_int (a + d\<^sup>2 + (\<Sum>c\<leftarrow>ms. (c - k)\<^sup>2))"
    using Cons.prems by (intro Cons.IH) (simp_all add: d_def add.assoc)
  have "fsumsq (of_int k) (of_int a) (map of_int (c # ms))
        = fsumsq (of_int k) (fl (of_int a + Pow2 (fl (of_int c - of_int k)))) (map of_int ms)"
    by simp
  also have "\<dots> = fsumsq (of_int k) (of_int (a + d\<^sup>2)) (map of_int ms)"
    by (simp only: dev sq acc)
  also have "\<dots> = of_int (a + d\<^sup>2 + (\<Sum>c\<leftarrow>ms. (c - k)\<^sup>2))" by (fact IH)
  also have "a + d\<^sup>2 + (\<Sum>c\<leftarrow>ms. (c - k)\<^sup>2) = a + (\<Sum>c\<leftarrow>c # ms. (c - k)\<^sup>2)"
    by (simp add: d_def)
  finally show ?case .
qed

lemma fl_quotient_threshold:
  assumes "0 < n" "n \<le> 4096" "T = 100 \<or> T = 500"
  shows "fl (of_int Q / of_int n) < of_int T \<longleftrightarrow> (of_int Q / of_int n :: real) < of_int T"
proof
  assume lt: "(of_int Q / of_int n :: real) < of_int T"
  have n: "(0::real) < of_int n" using assms(1) by simp
  from lt have "(of_int Q :: real) < of_int T * of_int n" using n by (simp add: pos_divide_less_eq)
  then have "Q < T * n" by (metis of_int_less_iff of_int_mult)
  then have "Q \<le> T * n - 1" by simp
  then have "(of_int Q :: real) \<le> of_int (T * n - 1)" by (simp only: of_int_le_iff)
  then have "(of_int Q :: real) / of_int n \<le> of_int (T * n - 1) / of_int n"
    using n by (simp add: divide_right_mono)
  also have "\<dots> = of_int T - 1 / of_int n" using n by (simp add: field_simps)
  also have "\<dots> \<le> of_int T - 1 / 4096"
  proof -
    have "(of_int n :: real) \<le> 4096" using assms(2) by simp
    then have "1 / 4096 \<le> 1 / (of_int n :: real)" using n by (simp add: field_simps)
    then show ?thesis by simp
  qed
  finally have "fl (of_int Q / of_int n) \<le> fl (of_int T - 1 / 4096)" by (rule fl_mono)
  moreover have "fl (of_int T - 1 / 4096) = of_int T - 1 / 4096"
    using assms(3)
    by (auto simp: fl_eqI [of 6] fl_eqI [of 8] round_at_def rne_def)
  ultimately show "fl (of_int Q / of_int n) < of_int T" by simp
next
  assume lt: "fl (of_int Q / of_int n) < of_int T"
  show "(of_int Q / of_int n :: real) < of_int T"
  proof (rule ccontr)
    assume "\<not> (of_int Q / of_int n :: real) < of_int T"
    then have "of_int T \<le> (of_int Q / of_int n :: real)" by simp
    then have "fl (of_int T) \<le> fl (of_int Q / of_int n)" by (rule fl_mono)
    moreover have "fl (of_int T) = of_int T" using assms(3) by (intro fl_of_int) auto
    ultimately show False using lt by simp
  qed
qed

lemma calculateVariance_exact:
  assumes "ms \<noteq> []" "\<forall>c \<in> set ms. 0 \<le> c \<and> c \<le> 2 ^ 20" "length ms \<le> 4096"
    and "int (length ms) dvd sum_list ms"
  shows "\<exists>Q. populationVariance (map of_int ms) = of_int Q / of_int (int (length ms))
           \<and> calculateVariance (map of_int ms) = fl (of_int Q / of_int (int (length ms)))"
proof -
  define n where "n = int (length ms)"
  define S where "S = sum_list ms"
  define k where "k = S div n"
  define Q where "Q = (\<Sum>c\<leftarrow>ms. (c - k)\<^sup>2)"
  have n: "0 < n" "n \<le> 4096" using assms(1,3) by (simp_all add: n_def)
  have nn: "0 \<le> (c::int)" if "c \<in> set ms" for c using assms(2) that by simp
  have S0: "0 \<le> S" unfolding S_def using nn by (intro sum_list_nonneg)
  have "S \<le> n * 2 ^ 20"
    using sum_list_le_length_times [of ms "\<lambda>c. c" "2 ^ 20"] assms(2) by (simp add: S_def n_def)
  then have S: "S \<le> 2 ^ 32" using n(2) by simp
  have Sk: "S = k * n" using assms(4) by (simp add: k_def S_def n_def)
  have k0: "0 \<le> k" using S0 n(1) by (simp add: k_def pos_imp_zdiv_nonneg_iff)
  have k1: "k \<le> 2 ^ 20"
  proof -
    have "k * n \<le> 2 ^ 20 * n" using \<open>S \<le> n * 2 ^ 20\<close> by (simp add: Sk mult.commute)
    then show ?thesis using n(1) by simp
  qed
  have dev: "\<forall>c \<in> set ms. \<bar>c - k\<bar> \<le> 2 ^ 20" using assms(2) k0 k1 by auto
  have Q0: "0 \<le> Q" unfolding Q_def by (intro sum_list_nonneg) auto
  have "Q \<le> n * 2 ^ 40"
  proof -
    have "(c - k)\<^sup>2 \<le> 2 ^ 40" if "c \<in> set ms" for c
    proof -
      have "(c - k)\<^sup>2 = \<bar>c - k\<bar> * \<bar>c - k\<bar>" by (simp add: power2_eq_square)
      also have "\<dots> \<le> 2 ^ 20 * 2 ^ 20" using dev that by (intro mult_mono) simp_all
      finally show ?thesis by simp
    qed
    then show ?thesis
      using sum_list_le_length_times [of ms "\<lambda>c. (c - k)\<^sup>2" "2 ^ 40"]
      by (simp add: Q_def n_def)
  qed
  then have Q: "Q \<le> 2 ^ 53" using n(2) by simp
  have len: "length (map real_of_int ms) \<noteq> 0" "int (length (map real_of_int ms)) = n"
    using assms(1) by (simp_all add: n_def)
  have fn: "float64 n = of_int n" using n by (intro float64_exact) simp
  have total: "fsum 0 (map of_int ms) = of_int S"
    using fsum_exact [of ms 0] nn S by (simp add: S_def)
  have "(of_int S :: real) / of_int n = of_int k" using n(1) by (simp add: Sk)
  then have mean: "fl (of_int S / of_int n) = of_int k"
    using fl_of_int [of k] k0 k1 by simp
  have squares: "fsumsq (of_int k) 0 (map of_int ms) = of_int Q"
    using fsumsq_exact [of ms k 0] dev Q by (simp add: Q_def)
  have cv: "calculateVariance (map of_int ms) = fl (of_int Q / of_int n)"
    unfolding calculateVariance_def Let_def len(2) fn total mean squares
    using len(1) by simp
  have "sum_list (map real_of_int ms) = of_int S"
    using of_int_sum_list_map [of "\<lambda>c. c" ms] by (simp add: S_def)
  then have pm: "sum_list (map real_of_int ms) / of_nat (length (map real_of_int ms)) = of_int k"
    using n(1) by (simp add: Sk n_def)
  have "(\<Sum>x\<leftarrow>map real_of_int ms. (x - of_int k)\<^sup>2) = of_int Q"
    using of_int_sum_list_map [of "\<lambda>c. (c - k)\<^sup>2" ms] by (simp add: Q_def o_def)
  then have pv: "populationVariance (map of_int ms) = of_int Q / of_int n"
    unfolding populationVariance_def Let_def pm by (simp add: n_def)
  show ?thesis using cv pv unfolding n_def by blast
qed

lemma spec_confidence_fl_quotient:
  assumes "0 < n" "n \<le> 4096"
  shows "spec_confidence N (fl (of_int Q / of_int n)) = spec_confidence N (of_int Q / of_int n)"
  using fl_quotient_threshold [OF assms, of 100 Q] fl_quotient_threshold [OF assms, of 500 Q]
  by (simp add: spec_confidence_def)

text \<open>
  C8, amended. The confidence is the float64 constant of the tier chosen by the sample
  count and, from 20 samples on, by the variance as \<open>calculateVariance\<close> computes it in
  float64 (running sum, mean, squared deviations and quotient, each operation rounded):
  fewer than 5 samples give 0.3, 5 to 19 give 0.6 whatever the values, 20 or more give 0.9
  when that variance is below 100, 0.7 when it is below 500 and 0.5 otherwise. For a series
  of whole values from 0 to \<open>2 ^ 20\<close> thousandths of a core, at most 4096 of them, with a
  whole mean, the computed variance chooses the tier that the exact population variance
  chooses.
\<close>

theorem confidence_tiers:
  fixes m :: WorkloadMetrics
  defines "n \<equiv> length (usage m)"
    and "ms \<equiv> map (\<lambda>u. MilliValue (CPUUsage u)) (usage m)"
  shows "calculateConfidence m =
           fl (spec_confidence n
                 (calculateVariance (map (\<lambda>u. float64 (MilliValue (CPUUsage u))) (usage m))))
       \<and> ((\<forall>c \<in> set ms. 0 \<le> c \<and> c \<le> 2 ^ 20) \<and> n \<le> 4096 \<and> int n dvd sum_list ms \<longrightarrow>
            calculateConfidence m = fl (spec_confidence n (populationVariance (map of_int ms))))"
proof (intro conjI impI)
  show general: "calculateConfidence m =
      fl (spec_confidence n
            (calculateVariance (map (\<lambda>u. float64 (MilliValue (CPUUsage u))) (usage m))))"
    by (simp add: calculateConfidence_def spec_confidence_def Let_def n_def)
  assume h: "(\<forall>c \<in> set ms. 0 \<le> c \<and> c \<le> 2 ^ 20) \<and> n \<le> 4096 \<and> int n dvd sum_list ms"
  show "calculateConfidence m = fl (spec_confidence n (populationVariance (map of_int ms)))"
  proof (cases "n < 20")
    case True
    then show ?thesis unfolding general by (simp add: spec_confidence_def)
  next
    case False
    then have ne: "ms \<noteq> []" by (auto simp: n_def ms_def)
    have len: "length ms = n" by (simp add: n_def ms_def)
    have floats: "map (\<lambda>u. float64 (MilliValue (CPUUsage u))) (usage m) = map of_int ms"
    proof -
      have "float64 (MilliValue (CPUUsage u)) = of_int (MilliValue (CPUUsage u))"
        if "u \<in> set (usage m)" for u
      proof -
        have "MilliValue (CPUUsage u) \<in> set ms" using that by (simp add: ms_def)
        then have "0 \<le> MilliValue (CPUUsage u) \<and> MilliValue (CPUUsage u) \<le> 2 ^ 20"
          using h by blast
        then show ?thesis by (intro float64_exact) simp
      qed
      then show ?thesis by (simp add: ms_def)
    qed
    obtain Q where Q: "populationVariance (map of_int ms) = of_int Q / of_int (int n)"
      "calculateVariance (map of_int ms) = fl (of_int Q / of_int (int n))"
      using calculateVariance_exact [OF ne] h unfolding len by blast
    have n: "0 < int n" "int n \<le> 4096" using False h by simp_all
    show ?thesis
      unfolding general floats Q
      by (simp only: spec_confidence_fl_quotient [OF n])
  qed
qed

theorem confidence_tiers_witness:
  "calculateConfidence (cpuSeries [100, 200, 300]) = fl (3/10)
   \<and> populationVariance [125, 75, 100, 100, 100, 100, 100, 100, 100, 100, 100, 100, 100,
        100, 100, 100, 100, 100, 100, 100, 100, 100, 100, 100, 100] = 50
   \<and> calculateConfidence (cpuSeries [125, 75, 100, 100, 100, 100, 100, 100, 100, 100, 100, 100,
        100, 100, 100, 100, 100, 100, 100, 100, 100, 100, 100, 100, 100]) = fl (9/10)"
proof -
  let ?a = "[100, 200, 300] :: int list"
  let ?b = "[125, 75, 100, 100, 100, 100, 100, 100, 100, 100, 100, 100, 100,
        100, 100, 100, 100, 100, 100, 100, 100, 100, 100, 100, 100] :: int list"
  have ma: "map (\<lambda>u. MilliValue (CPUUsage u)) (usage (cpuSeries ?a)) = ?a"
    by (simp add: cpuSeries_def series_def sample_def MilliValue_def roundUp_def int64_def)
  have mb: "map (\<lambda>u. MilliValue (CPUUsage u)) (usage (cpuSeries ?b)) = ?b"
    by (simp add: cpuSeries_def series_def sample_def MilliValue_def roundUp_def int64_def)
  have la: "length (usage (cpuSeries ?a)) = 3" by (simp add: cpuSeries_def series_def)
  have lb: "length (usage (cpuSeries ?b)) = 25" by (simp add: cpuSeries_def series_def)
  have pv: "populationVariance (map of_int ?b) = 50"
    by (simp add: populationVariance_def power2_eq_square)
  have a: "calculateConfidence (cpuSeries ?a) = fl (3/10)"
    using confidence_tiers [of "cpuSeries ?a"] unfolding ma la
    by (simp add: spec_confidence_def)
  have b: "calculateConfidence (cpuSeries ?b) = fl (9/10)"
    using confidence_tiers [of "cpuSeries ?b"] unfolding mb lb pv
    by (simp add: spec_confidence_def)
  from a b pv show ?thesis by simp
qed

lemma fl_numeral: "(numeral n :: int) \<le> 2 ^ 53 \<Longrightarrow> fl (numeral n) = numeral n"
  using fl_of_int [of "numeral n"] by simp

lemma confidence_whole_mean_example:
  "calculateConfidence (cpuSeries [135, 65, 105, 95, 100, 100, 100, 100, 100, 100, 100, 100, 100, 100, 100, 100, 100, 100, 100, 100, 100, 100, 100, 100, 100]) = fl (7/10)
   \<and> populationVariance [135, 65, 105, 95, 100, 100, 100, 100, 100, 100, 100, 100, 100, 100, 100, 100, 100, 100, 100, 100, 100, 100, 100, 100, 100] = 100"
proof -
  let ?ms = "[135, 65, 105, 95, 100, 100, 100, 100, 100, 100, 100, 100, 100, 100, 100, 100, 100, 100, 100, 100, 100, 100, 100, 100, 100] :: int list"
  have len: "length (usage (cpuSeries ?ms)) = 25"
    by (simp add: cpuSeries_def series_def)
  have vals: "map (\<lambda>u. float64 (MilliValue (CPUUsage u))) (usage (cpuSeries ?ms))
      = map of_int ?ms"
    by (simp add: cpuSeries_def series_def sample_def MilliValue_def roundUp_def int64_def float64_numeral)
  have pv: "populationVariance (map of_int ?ms) = 100"
    by (simp add: populationVariance_def power2_eq_square)
  obtain Q where "populationVariance (map of_int ?ms) = of_int Q / of_int (int (length ?ms))"
    and cv: "calculateVariance (map of_int ?ms) = fl (of_int Q / of_int (int (length ?ms)))"
    using calculateVariance_exact [of ?ms] by auto
  then have "calculateVariance (map of_int ?ms) = fl 100" using pv by simp
  then have variance: "calculateVariance (map of_int ?ms) = 100" by (simp add: fl_numeral)
  have "calculateConfidence (cpuSeries ?ms) = fl (7/10)"
    unfolding calculateConfidence_def Let_def len vals variance by simp
  then show ?thesis using pv by simp
qed

text \<open>
  C8 as stated: the confidence is a function of the sample count and the population
  variance of the CPU values; from 20 samples on it is 0.9 when that variance is below 100
  and 0.7 when it is at least 100 and below 500. The first 25 samples below have mean 100.2
  and population variance exactly 100, so the words give 0.7; the analyzer computes the
  variance 99.99999999999996 in float64 and returns 0.9. The second 25 samples have mean
  100 and the same population variance 100, and the analyzer returns 0.7 for them.
\<close>

theorem confidence_not_from_population_variance:
  "calculateConfidence (cpuSeries [135, 65, 107, 99, 99, 100, 100, 100, 100, 100, 100, 100, 100, 100, 100, 100, 100, 100, 100, 100, 100, 100, 100, 100, 100]) = fl (9/10)
   \<and> populationVariance [135, 65, 107, 99, 99, 100, 100, 100, 100, 100, 100, 100, 100, 100, 100, 100, 100, 100, 100, 100, 100, 100, 100, 100, 100] = 100
   \<and> spec_confidence 25 100 = 7/10
   \<and> calculateConfidence (cpuSeries [135, 65, 105, 95, 100, 100, 100, 100, 100, 100, 100, 100, 100, 100, 100, 100, 100, 100, 100, 100, 100, 100, 100, 100, 100]) = fl (7/10)
   \<and> populationVariance [135, 65, 105, 95, 100, 100, 100, 100, 100, 100, 100, 100, 100, 100, 100, 100, 100, 100, 100, 100, 100, 100, 100, 100, 100] = 100
   \<and> fl (9/10) \<noteq> fl (7/10)"
proof -
  have len: "length (usage (cpuSeries [135, 65, 107, 99, 99, 100, 100, 100, 100, 100, 100, 100, 100, 100, 100, 100, 100, 100, 100, 100, 100, 100, 100, 100, 100])) = 25"
    by (simp add: cpuSeries_def series_def)
  have vals: "map (\<lambda>u. float64 (MilliValue (CPUUsage u))) (usage (cpuSeries [135, 65, 107, 99, 99, 100, 100, 100, 100, 100, 100, 100, 100, 100, 100, 100, 100, 100, 100, 100, 100, 100, 100, 100, 100]))
      = [135, 65, 107, 99, 99, 100, 100, 100, 100, 100, 100, 100, 100, 100, 100, 100, 100, 100, 100, 100, 100, 100, 100, 100, 100]"
    by (simp add: cpuSeries_def series_def sample_def MilliValue_def roundUp_def int64_def float64_numeral)
  have total: "fsum 0 [135, 65, 107, 99, 99, 100, 100, 100, 100, 100, 100, 100, 100, 100, 100, 100, 100, 100, 100, 100, 100, 100, 100, 100, 100] = 2505"
    by (simp add: fl_numeral)
  have mean: "fl (501 / 5) = 7050948166601933 / 70368744177664"
    by (simp add: fl_eqI [of 6] round_at_def rne_def)
  have d0: "fl (2448832297382707 / 70368744177664) = 2448832297382707 / 70368744177664"
    by (simp add: fl_eqI [of 5] round_at_def rne_def)
  have q0: "fl (5996779620704666732922422647849 / 4951760157141521099596496896) = 5326210246807387 / 4398046511104"
    by (simp add: fl_eqI [of 10] round_at_def rne_def)
  have a0: "fl (5326210246807387 / 4398046511104) = 5326210246807387 / 4398046511104"
    by (simp add: fl_eqI [of 10] round_at_def rne_def)
  have d1: "fl (2476979795053773 / 70368744177664) = 2476979795053773 / 70368744177664"
    by (simp add: fl_eqI [of 5] round_at_def rne_def)
  have q1: "fl (6135428905104631294035961535529 / 4951760157141521099596496896) = 5449355549118301 / 4398046511104"
    by (simp add: fl_eqI [of 10] round_at_def rne_def)
  have a1: "fl (1346945724490711 / 549755813888) = 1346945724490711 / 549755813888"
    by (simp add: fl_eqI [of 11] round_at_def rne_def)
  have d2: "fl (478507460408115 / 70368744177664) = 478507460408115 / 70368744177664"
    by (simp add: fl_eqI [of 2] round_at_def rne_def)
  have q2: "fl (228969389666223744242357853225 / 4951760157141521099596496896) = 6507701461550361 / 140737488355328"
    by (simp add: fl_eqI [of 5] round_at_def rne_def)
  have a2: "fl (351325806931172377 / 140737488355328) = 343091608331223 / 137438953472"
    by (simp add: fl_eqI [of 11] round_at_def rne_def)
  have d3: "fl (84442493013197 / 70368744177664) = 84442493013197 / 70368744177664"
    by (simp add: fl_eqI [of 0] round_at_def rne_def)
  have q3: "fl (7130534626283824160416160809 / 4951760157141521099596496896) = 6485183463413545 / 4503599627370496"
    by (simp add: fl_eqI [of 0] round_at_def rne_def)
  have a3: "fl (11248911005260928809 / 4503599627370496) = 5492632326787563 / 2199023255552"
    by (simp add: fl_eqI [of 11] round_at_def rne_def)
  have a4: "fl (11255396188724342569 / 4503599627370496) = 2747899460137779 / 1099511627776"
    by (simp add: fl_eqI [of 11] round_at_def rne_def)
  have d5: "fl (14073748835533 / 70368744177664) = 14073748835533 / 70368744177664"
    by (simp add: fl_eqI [of "-3"] round_at_def rne_def)
  have q5: "fl (198070406285666473483394089 / 4951760157141521099596496896) = 5764607523034399 / 144115188075855872"
    by (simp add: fl_eqI [of "-5"] round_at_def rne_def)
  have a5: "fl (360178442646702003487 / 144115188075855872) = 1373971720301445 / 549755813888"
    by (simp add: fl_eqI [of 11] round_at_def rne_def)
  have a6: "fl (360184207254225032479 / 144115188075855872) = 2747987421068001 / 1099511627776"
    by (simp add: fl_eqI [of 11] round_at_def rne_def)
  have a7: "fl (360189971861748061471 / 144115188075855872) = 343503925191639 / 137438953472"
    by (simp add: fl_eqI [of 11] round_at_def rne_def)
  have a8: "fl (360195736469271090463 / 144115188075855872) = 2748075381998223 / 1099511627776"
    by (simp add: fl_eqI [of 11] round_at_def rne_def)
  have a9: "fl (360201501076794119455 / 144115188075855872) = 1374059681231667 / 549755813888"
    by (simp add: fl_eqI [of 11] round_at_def rne_def)
  have a10: "fl (360207265684317148447 / 144115188075855872) = 2748163342928445 / 1099511627776"
    by (simp add: fl_eqI [of 11] round_at_def rne_def)
  have a11: "fl (360213030291840177439 / 144115188075855872) = 687051830848389 / 274877906944"
    by (simp add: fl_eqI [of 11] round_at_def rne_def)
  have a12: "fl (360218794899363206431 / 144115188075855872) = 2748251303858667 / 1099511627776"
    by (simp add: fl_eqI [of 11] round_at_def rne_def)
  have a13: "fl (360224559506886235423 / 144115188075855872) = 1374147642161889 / 549755813888"
    by (simp add: fl_eqI [of 11] round_at_def rne_def)
  have a14: "fl (360230324114409264415 / 144115188075855872) = 2748339264788889 / 1099511627776"
    by (simp add: fl_eqI [of 11] round_at_def rne_def)
  have a15: "fl (360236088721932293407 / 144115188075855872) = 171773952828375 / 68719476736"
    by (simp add: fl_eqI [of 11] round_at_def rne_def)
  have a16: "fl (360241853329455322399 / 144115188075855872) = 2748427225719111 / 1099511627776"
    by (simp add: fl_eqI [of 11] round_at_def rne_def)
  have a17: "fl (360247617936978351391 / 144115188075855872) = 1374235603092111 / 549755813888"
    by (simp add: fl_eqI [of 11] round_at_def rne_def)
  have a18: "fl (360253382544501380383 / 144115188075855872) = 2748515186649333 / 1099511627776"
    by (simp add: fl_eqI [of 11] round_at_def rne_def)
  have a19: "fl (360259147152024409375 / 144115188075855872) = 687139791778611 / 274877906944"
    by (simp add: fl_eqI [of 11] round_at_def rne_def)
  have a20: "fl (360264911759547438367 / 144115188075855872) = 2748603147579555 / 1099511627776"
    by (simp add: fl_eqI [of 11] round_at_def rne_def)
  have a21: "fl (360270676367070467359 / 144115188075855872) = 1374323564022333 / 549755813888"
    by (simp add: fl_eqI [of 11] round_at_def rne_def)
  have a22: "fl (360276440974593496351 / 144115188075855872) = 2748691108509777 / 1099511627776"
    by (simp add: fl_eqI [of 11] round_at_def rne_def)
  have a23: "fl (360282205582116525343 / 144115188075855872) = 343591886121861 / 137438953472"
    by (simp add: fl_eqI [of 11] round_at_def rne_def)
  have a24: "fl (360287970189639554335 / 144115188075855872) = 2748779069439999 / 1099511627776"
    by (simp add: fl_eqI [of 11] round_at_def rne_def)
  have var: "fl (2748779069439999 / 27487790694400) = 7036874417766397 / 70368744177664"
    by (simp add: fl_eqI [of 6] round_at_def rne_def)
  have squares: "fsumsq (7050948166601933 / 70368744177664) 0 [135, 65, 107, 99, 99, 100, 100, 100, 100, 100, 100, 100, 100, 100, 100, 100, 100, 100, 100, 100, 100, 100, 100, 100, 100]
      = 2748779069439999 / 1099511627776"
    by (simp add: Pow2_def fl_minus d0 q0 a0 d1 q1 a1 d2 q2 a2 d3 q3 a3 a4 d5 q5 a5 a6 a7 a8 a9 a10 a11 a12 a13 a14 a15 a16 a17 a18 a19 a20 a21 a22 a23 a24)
  have variance: "calculateVariance [135, 65, 107, 99, 99, 100, 100, 100, 100, 100, 100, 100, 100, 100, 100, 100, 100, 100, 100, 100, 100, 100, 100, 100, 100] = 7036874417766397 / 70368744177664"
    by (simp add: calculateVariance_def Let_def total float64_numeral mean squares var
          del: fsum.simps fsumsq.simps)
  have "calculateConfidence (cpuSeries [135, 65, 107, 99, 99, 100, 100, 100, 100, 100, 100, 100, 100, 100, 100, 100, 100, 100, 100, 100, 100, 100, 100, 100, 100]) = fl (9/10)"
    by (simp add: calculateConfidence_def Let_def len vals variance)
  moreover have "populationVariance [135, 65, 107, 99, 99, 100, 100, 100, 100, 100, 100, 100, 100, 100, 100, 100, 100, 100, 100, 100, 100, 100, 100, 100, 100] = 100"
    by (simp add: populationVariance_def power2_eq_square)
  moreover have "spec_confidence 25 100 = 7/10"
    by (simp add: spec_confidence_def)
  moreover have "fl (9/10) \<noteq> fl (7/10)"
    by (simp add: fl_9_10 fl_7_10)
  ultimately show ?thesis using confidence_whole_mean_example by simp
qed

end
